theory Spec2Isabelle
  imports Main "HOL-Library.Log_Nat" "HOL-Library.Word"
begin

section \<open>JavaScript numbers\<close>

text \<open>
  A JavaScript \<^verbatim>\<open>number\<close> is an IEEE 754 binary64 value: a finite dyadic rational, one of
  the two infinities, or NaN. The finite values are carried as rationals, and every
  arithmetic operation rounds its exact result to the nearest binary64 value, ties to
  even; the binary64 values are the rationals that \<open>round64\<close> leaves as they are, the
  single-precision values of a \<^verbatim>\<open>Float32Array\<close> those that \<open>round32\<close> leaves as they are.
  The sign of zero is not represented: it is observable only through a division by
  zero, and the functions modelled below divide only by \<^verbatim>\<open>2\<close>, by a \<^verbatim>\<open>w\<close> that was tested
  to be nonzero, and by a difference of two values that compared different.
\<close>

datatype number = NaN | NegInf | Fin rat | PosInf

definition pow2 :: "int \<Rightarrow> rat" where
  "pow2 k = 2 powi k"

definition floor_log2 :: "rat \<Rightarrow> int" where
  \<comment> \<open>for \<open>0 < a\<close>: the exponent \<open>e\<close> with \<open>2^e \<le> a < 2^(e+1)\<close>\<close>
  "floor_log2 a =
     (let (n, d) = quotient_of a; k = bitlen n - bitlen d
      in if pow2 k \<le> a then k else k - 1)"

definition round_half_even :: "rat \<Rightarrow> int" where
  "round_half_even r =
     (let f = \<lfloor>r\<rfloor>; d = r - of_int f
      in if d < 1 / 2 then f
         else if 1 / 2 < d then f + 1
         else if even f then f else f + 1)"

definition round_binary :: "nat \<Rightarrow> int \<Rightarrow> int \<Rightarrow> rat \<Rightarrow> number" where
  \<comment> \<open>round to nearest, ties to even, in the binary format with \<open>p\<close> significand bits
      and exponents \<open>emin .. emax\<close> (subnormals below \<open>2^emin\<close>, overflow to infinity)\<close>
  "round_binary p emin emax q =
     (if q = 0 then Fin 0
      else
        let a = \<bar>q\<bar>;
            e = max (floor_log2 a) emin;
            u = pow2 (e - (int p - 1));
            r = of_int (round_half_even (a / u)) * u
        in if pow2 (emax + 1) \<le> r then (if 0 < q then PosInf else NegInf)
           else Fin (if 0 < q then r else - r))"

definition round64 :: "rat \<Rightarrow> number" where
  "round64 = round_binary 53 (- 1022) 1023"

definition round32 :: "rat \<Rightarrow> number" where
  "round32 = round_binary 24 (- 126) 127"

fun fround :: "number \<Rightarrow> number" where
  \<comment> \<open>the conversion applied by a store into a \<^verbatim>\<open>Float32Array\<close>\<close>
  "fround (Fin q) = round32 q"
| "fround v = v"

fun num_neg :: "number \<Rightarrow> number" where
  "num_neg NaN = NaN"
| "num_neg NegInf = PosInf"
| "num_neg PosInf = NegInf"
| "num_neg (Fin a) = Fin (- a)"

fun num_add :: "number \<Rightarrow> number \<Rightarrow> number" where
  "num_add NaN _ = NaN"
| "num_add _ NaN = NaN"
| "num_add PosInf NegInf = NaN"
| "num_add NegInf PosInf = NaN"
| "num_add PosInf _ = PosInf"
| "num_add _ PosInf = PosInf"
| "num_add NegInf _ = NegInf"
| "num_add _ NegInf = NegInf"
| "num_add (Fin a) (Fin b) = round64 (a + b)"

definition num_sub :: "number \<Rightarrow> number \<Rightarrow> number" where
  "num_sub a b = num_add a (num_neg b)"

fun num_sgn :: "number \<Rightarrow> int" where
  \<comment> \<open>used for the sign of a product or quotient; zero counts as positive zero\<close>
  "num_sgn NegInf = - 1"
| "num_sgn PosInf = 1"
| "num_sgn (Fin a) = (if a < 0 then - 1 else 1)"
| "num_sgn NaN = 0"

definition signed_inf :: "int \<Rightarrow> number" where
  "signed_inf s = (if 0 < s then PosInf else NegInf)"

fun num_mul :: "number \<Rightarrow> number \<Rightarrow> number" where
  "num_mul NaN _ = NaN"
| "num_mul _ NaN = NaN"
| "num_mul (Fin a) (Fin b) = round64 (a * b)"
| "num_mul a b =
     (if a = Fin 0 \<or> b = Fin 0 then NaN else signed_inf (num_sgn a * num_sgn b))"

fun num_div :: "number \<Rightarrow> number \<Rightarrow> number" where
  "num_div NaN _ = NaN"
| "num_div _ NaN = NaN"
| "num_div (Fin a) (Fin b) =
     (if b = 0 then (if a = 0 then NaN else signed_inf (num_sgn (Fin a)))
      else round64 (a / b))"
| "num_div (Fin a) _ = Fin 0"
| "num_div a (Fin b) = signed_inf (num_sgn a * num_sgn (Fin b))"
| "num_div _ _ = NaN"

fun num_lt :: "number \<Rightarrow> number \<Rightarrow> bool" where
  "num_lt NaN _ = False"
| "num_lt _ NaN = False"
| "num_lt (Fin a) (Fin b) = (a < b)"
| "num_lt _ NegInf = False"
| "num_lt NegInf _ = True"
| "num_lt PosInf _ = False"
| "num_lt _ PosInf = True"

definition num_gt :: "number \<Rightarrow> number \<Rightarrow> bool" where
  "num_gt a b = num_lt b a"

fun num_seq :: "number \<Rightarrow> number \<Rightarrow> bool" where
  \<comment> \<open>strict equality \<^verbatim>\<open>===\<close> on numbers\<close>
  "num_seq NaN _ = False"
| "num_seq _ NaN = False"
| "num_seq a b = (a = b)"

definition elem :: "number list \<Rightarrow> nat \<Rightarrow> number" where
  \<comment> \<open>\<^verbatim>\<open>a[i]\<close> read as a number: an index outside the array yields \<^verbatim>\<open>undefined\<close>,
      which every arithmetic operator and comparison converts to NaN\<close>
  "elem a i = (if i < length a then a ! i else NaN)"

text \<open>
  Lengths and indices are natural numbers. The point counts \<^verbatim>\<open>length / 2\<close> and
  \<^verbatim>\<open>length / 3\<close> are taken as exact rationals: for the lengths of a typed array, below
  \<open>2^53\<close>, the rounding of the quotient changes neither the number of rounds of a loop
  nor the truncated length of a new array.
\<close>

definition loop_count :: "rat \<Rightarrow> nat" where
  \<comment> \<open>the number of rounds of \<^verbatim>\<open>for (let i = 0; i < c; i++)\<close>\<close>
  "loop_count c = nat \<lceil>c\<rceil>"

definition to_index :: "rat \<Rightarrow> nat" where
  \<comment> \<open>the length of \<^verbatim>\<open>new Float32Array(c)\<close> or \<^verbatim>\<open>new Uint8Array(c)\<close>
      for \<open>0 \<le> c\<close>: the fraction is dropped\<close>
  "to_index c = nat \<lfloor>c\<rfloor>"

section \<open>utils/pointInPolygon.ts\<close>

text \<open>The fields \<^verbatim>\<open>x\<close> and \<^verbatim>\<open>y\<close> of a \<^verbatim>\<open>Point2D\<close> are \<open>pt_x\<close> and \<open>pt_y\<close>.\<close>

record Point2D =
  pt_x :: number
  pt_y :: number

definition ray_crosses ::
  "number \<Rightarrow> number \<Rightarrow> number \<Rightarrow> number \<Rightarrow> number \<Rightarrow> number \<Rightarrow> bool" where
  \<comment> \<open>\<^verbatim>\<open>((yi > y) !== (yj > y)) && (x < (xj - xi) * (y - yi) / (yj - yi) + xi)\<close>\<close>
  "ray_crosses x y xi yi xj yj =
     ((num_gt yi y \<noteq> num_gt yj y) \<and>
      num_lt x (num_add (num_div (num_mul (num_sub xj xi) (num_sub y yi)) (num_sub yj yi)) xi))"

definition isPointInPolygon :: "Point2D \<Rightarrow> Point2D list \<Rightarrow> bool" where
  "isPointInPolygon point polygon =
     (let n = length polygon in
      if n < 3 then False
      else
        let x = pt_x point; y = pt_y point in
        snd (fold (\<lambda>i (j, inside).
                     let xi = pt_x (polygon ! i); yi = pt_y (polygon ! i);
                         xj = pt_x (polygon ! j); yj = pt_y (polygon ! j)
                     in (i, if ray_crosses x y xi yi xj yj then \<not> inside else inside))
                  [0..<n] (n - 1, False)))"

record Bounds =
  minX :: number
  maxX :: number
  minY :: number
  maxY :: number

definition bounds_step :: "Point2D \<Rightarrow> Bounds \<Rightarrow> Bounds" where
  \<comment> \<open>the body of \<^verbatim>\<open>for (const p of polygon)\<close>\<close>
  "bounds_step p b =
     (let b1 = (if num_lt (pt_x p) (minX b) then b\<lparr>minX := pt_x p\<rparr> else b);
          b2 = (if num_gt (pt_x p) (maxX b1) then b1\<lparr>maxX := pt_x p\<rparr> else b1);
          b3 = (if num_lt (pt_y p) (minY b2) then b2\<lparr>minY := pt_y p\<rparr> else b2)
      in if num_gt (pt_y p) (maxY b3) then b3\<lparr>maxY := pt_y p\<rparr> else b3)"

definition getPolygonBounds :: "Point2D list \<Rightarrow> Bounds" where
  "getPolygonBounds polygon =
     fold bounds_step polygon \<lparr>minX = PosInf, maxX = NegInf, minY = PosInf, maxY = NegInf\<rparr>"

definition outside_bounds :: "Bounds \<Rightarrow> number \<Rightarrow> number \<Rightarrow> bool" where
  \<comment> \<open>\<^verbatim>\<open>x < bounds.minX || x > bounds.maxX || y < bounds.minY || y > bounds.maxY\<close>\<close>
  "outside_bounds bounds x y =
     (num_lt x (minX bounds) \<or> num_gt x (maxX bounds) \<or>
      num_lt y (minY bounds) \<or> num_gt y (maxY bounds))"

definition batchPointsInPolygon :: "number list \<Rightarrow> Point2D list \<Rightarrow> 8 word list" where
  "batchPointsInPolygon screenPositions polygon =
     (let pointCount = rat_of_nat (length screenPositions) / 2;
          results = replicate (to_index pointCount) (0 :: 8 word)
      in
      if length polygon < 3 then results
      else
        let bounds = getPolygonBounds polygon;
            n = length polygon;
            (polyX, polyY) =
              fold (\<lambda>i (polyX, polyY).
                      (polyX[i := fround (pt_x (polygon ! i))],
                       polyY[i := fround (pt_y (polygon ! i))]))
                   [0..<n] (replicate n (Fin 0), replicate n (Fin 0))
        in
        fold (\<lambda>i results.
                let x = elem screenPositions (i * 2);
                    y = elem screenPositions (i * 2 + 1)
                in
                if outside_bounds bounds x y then results[i := 0]
                else
                  let inside =
                        snd (fold (\<lambda>j (k, inside).
                                     let xi = polyX ! j; yi = polyY ! j;
                                         xk = polyX ! k; yk = polyY ! k
                                     in (j, if ray_crosses x y xi yi xk yk
                                            then \<not> inside else inside))
                                  [0..<n] (n - 1, False))
                  in results[i := (if inside then 1 else 0)])
             [0..<loop_count pointCount] results)"

section \<open>utils/projection.ts\<close>

definition projectPointsToScreen ::
  "number list \<Rightarrow> number list \<Rightarrow> number \<Rightarrow> number \<Rightarrow> number list" where
  \<comment> \<open>\<open>e\<close> is \<^verbatim>\<open>mvpMatrix.elements\<close>, the sixteen elements (column by column) of the
      product of the camera's projection matrix and inverse world matrix; the product
      is computed by the three.js library\<close>
  "projectPointsToScreen positions e width height =
     (let pointCount = rat_of_nat (length positions) / 3;
          screenPositions = replicate (to_index (pointCount * 2)) (Fin 0);
          halfWidth = num_div width (Fin 2);
          halfHeight = num_div height (Fin 2)
      in
      fold (\<lambda>i screenPositions.
              let x = elem positions (i * 3);
                  y = elem positions (i * 3 + 1);
                  z = elem positions (i * 3 + 2);
                  w = num_add (num_add (num_add (num_mul (elem e 3) x) (num_mul (elem e 7) y))
                                       (num_mul (elem e 11) z)) (elem e 15)
              in
              if num_seq w (Fin 0)
              then (screenPositions[i * 2 := fround NegInf])[i * 2 + 1 := fround NegInf]
              else
                let invW = num_div (Fin 1) w;
                    ndcX = num_mul (num_add (num_add (num_add (num_mul (elem e 0) x)
                                       (num_mul (elem e 4) y)) (num_mul (elem e 8) z)) (elem e 12)) invW;
                    ndcY = num_mul (num_add (num_add (num_add (num_mul (elem e 1) x)
                                       (num_mul (elem e 5) y)) (num_mul (elem e 9) z)) (elem e 13)) invW
                in (screenPositions[i * 2 := fround (num_mul (num_add ndcX (Fin 1)) halfWidth)])
                                   [i * 2 + 1 := fround (num_mul (num_sub (Fin 1) ndcY) halfHeight)])
           [0..<loop_count pointCount] screenPositions)"


section \<open>Ray casting as a parity of edge crossings\<close>

text \<open>
  Both ray-casting loops carry the index of the previous vertex and a flag that is
  toggled at every crossing edge. \<open>xor_walk\<close> is that toggling over a list of indices,
  \<open>edge_parity\<close> the same over the vertices themselves.
\<close>

fun xor_walk :: "(nat \<Rightarrow> nat \<Rightarrow> bool) \<Rightarrow> nat \<Rightarrow> nat list \<Rightarrow> bool" where
  "xor_walk C k [] = False"
| "xor_walk C k (j # js) = (C j k \<noteq> xor_walk C j js)"

definition crossing :: "number \<Rightarrow> number \<Rightarrow> Point2D \<Rightarrow> Point2D \<Rightarrow> bool" where
  "crossing x y p q = ray_crosses x y (pt_x p) (pt_y p) (pt_x q) (pt_y q)"

fun edge_parity :: "(Point2D \<Rightarrow> Point2D \<Rightarrow> bool) \<Rightarrow> Point2D \<Rightarrow> Point2D list \<Rightarrow> bool" where
  "edge_parity c q [] = False"
| "edge_parity c q (p # ps) = (c p q \<noteq> edge_parity c p ps)"

definition fround_point :: "Point2D \<Rightarrow> Point2D" where
  \<comment> \<open>a vertex as the \<^verbatim>\<open>Float32Array\<close> copies \<^verbatim>\<open>polyX\<close>, \<^verbatim>\<open>polyY\<close> hold it\<close>
  "fround_point p = \<lparr>pt_x = fround (pt_x p), pt_y = fround (pt_y p)\<rparr>"

definition mask_value :: "Point2D list \<Rightarrow> number \<Rightarrow> number \<Rightarrow> 8 word" where
  "mask_value polygon x y =
     (if \<not> outside_bounds (getPolygonBounds polygon) x y \<and>
         isPointInPolygon \<lparr>pt_x = x, pt_y = y\<rparr> (map fround_point polygon)
      then 1 else 0)"

named_theorems float_eval \<open>evaluation of the arithmetic on numerals\<close>

section \<open>Running minimum and maximum\<close>

text \<open>
  Each field of the bounds is folded over the vertices on its own: \<open>running_min\<close> and
  \<open>running_max\<close> are those folds, from the initial \<^verbatim>\<open>Infinity\<close> and \<^verbatim>\<open>-Infinity\<close>.
\<close>

definition running_min :: "number list \<Rightarrow> number" where
  "running_min vs = fold (\<lambda>v m. if num_lt v m then v else m) vs PosInf"

definition running_max :: "number list \<Rightarrow> number" where
  "running_max vs = fold (\<lambda>v m. if num_gt v m then v else m) vs NegInf"

fun is_fin :: "number \<Rightarrow> bool" where
  "is_fin (Fin q) = True"
| "is_fin v = False"

section \<open>The projection of one point\<close>

text \<open>
  Names for what one round of the projection loop computes, and the formula of the
  specification for the first screen coordinate, which it is compared with.
\<close>

definition row_dot :: "number list \<Rightarrow> nat \<Rightarrow> number \<Rightarrow> number \<Rightarrow> number \<Rightarrow> number" where
  \<comment> \<open>row \<open>r\<close> of the column-major matrix \<open>e\<close> applied to \<open>(x, y, z, 1)\<close>, summed
      from the left as the source writes it\<close>
  "row_dot e r x y z =
     num_add (num_add (num_add (num_mul (elem e r) x) (num_mul (elem e (r + 4)) y))
                      (num_mul (elem e (r + 8)) z)) (elem e (r + 12))"

definition screen_x :: "number list \<Rightarrow> number \<Rightarrow> number \<Rightarrow> number \<Rightarrow> number \<Rightarrow> number" where
  \<comment> \<open>what one round of the projection loop stores at index \<open>2i\<close>\<close>
  "screen_x e width x y z =
     (if num_seq (row_dot e 3 x y z) (Fin 0) then NegInf
      else fround (num_mul (num_add (num_mul (row_dot e 0 x y z)
                                             (num_div (Fin 1) (row_dot e 3 x y z))) (Fin 1))
                           (num_div width (Fin 2))))"

definition screen_y :: "number list \<Rightarrow> number \<Rightarrow> number \<Rightarrow> number \<Rightarrow> number \<Rightarrow> number" where
  \<comment> \<open>what one round of the projection loop stores at index \<open>2i + 1\<close>\<close>
  "screen_y e height x y z =
     (if num_seq (row_dot e 3 x y z) (Fin 0) then NegInf
      else fround (num_mul (num_sub (Fin 1) (num_mul (row_dot e 1 x y z)
                                                     (num_div (Fin 1) (row_dot e 3 x y z))))
                           (num_div height (Fin 2))))"

definition spec_screenX :: "number list \<Rightarrow> number \<Rightarrow> number \<Rightarrow> number \<Rightarrow> number \<Rightarrow> number" where
  \<comment> \<open>the specification's \<^verbatim>\<open>screenX = (ndcX + 1) * width/2\<close>, with \<^verbatim>\<open>ndcX\<close> the first row
      applied to \<open>(x, y, z, 1)\<close> and divided by \<open>w\<close>\<close>
  "spec_screenX e width x y z =
     num_mul (num_add (num_div (row_dot e 0 x y z) (row_dot e 3 x y z)) (Fin 1))
             (num_div width (Fin 2))"

definition put2 :: "nat \<Rightarrow> 'a \<Rightarrow> 'a \<Rightarrow> 'a list \<Rightarrow> 'a list" where
  \<comment> \<open>the two stores of one round: \<^verbatim>\<open>r[i * 2] = u; r[i * 2 + 1] = v\<close>\<close>
  "put2 i u v r = (r[i * 2 := u])[i * 2 + 1 := v]"

section \<open>The typed arrays as a store\<close>

text \<open>
  To state which buffers a function writes, the two array-processing functions are also
  modelled over a store of typed arrays. An address is an index into the store; \<^verbatim>\<open>new\<close>
  appends a zero-filled buffer, so its address is new. A store into a \<^verbatim>\<open>Float32Array\<close>
  rounds to single precision, and reads and writes outside a buffer behave as above.
\<close>

datatype buffer = Float32Array (f32_data: "number list") | Uint8Array (u8_data: "8 word list")

type_synonym store = "buffer list"

definition new_Float32Array :: "nat \<Rightarrow> store \<Rightarrow> nat \<times> store" where
  "new_Float32Array n s = (length s, s @ [Float32Array (replicate n (Fin 0))])"

definition new_Uint8Array :: "nat \<Rightarrow> store \<Rightarrow> nat \<times> store" where
  "new_Uint8Array n s = (length s, s @ [Uint8Array (replicate n 0)])"

definition f32_length :: "store \<Rightarrow> nat \<Rightarrow> nat" where
  "f32_length s a = length (f32_data (s ! a))"

definition f32_read :: "store \<Rightarrow> nat \<Rightarrow> nat \<Rightarrow> number" where
  "f32_read s a i = elem (f32_data (s ! a)) i"

definition f32_write :: "store \<Rightarrow> nat \<Rightarrow> nat \<Rightarrow> number \<Rightarrow> store" where
  "f32_write s a i v = s[a := Float32Array ((f32_data (s ! a))[i := fround v])]"

definition u8_write :: "store \<Rightarrow> nat \<Rightarrow> nat \<Rightarrow> 8 word \<Rightarrow> store" where
  "u8_write s a i v = s[a := Uint8Array ((u8_data (s ! a))[i := v])]"

definition copy_vertex_store :: "Point2D list \<Rightarrow> nat \<Rightarrow> nat \<Rightarrow> nat \<Rightarrow> store \<Rightarrow> store" where
  \<comment> \<open>\<^verbatim>\<open>polyX[i] = polygon[i].x; polyY[i] = polygon[i].y\<close>\<close>
  "copy_vertex_store polygon polyX polyY i s =
     f32_write (f32_write s polyX i (pt_x (polygon ! i))) polyY i (pt_y (polygon ! i))"

definition classify_point_store ::
  "nat \<Rightarrow> nat \<Rightarrow> nat \<Rightarrow> nat \<Rightarrow> Bounds \<Rightarrow> nat \<Rightarrow> nat \<Rightarrow> store \<Rightarrow> store" where
  \<comment> \<open>the body of the per-point loop of \<^verbatim>\<open>batchPointsInPolygon\<close>\<close>
  "classify_point_store screenPositions results polyX polyY bounds n i s =
     (let x = f32_read s screenPositions (i * 2);
          y = f32_read s screenPositions (i * 2 + 1)
      in
      if outside_bounds bounds x y then u8_write s results i 0
      else
        let inside =
              snd (fold (\<lambda>j (k, inside).
                           let xi = f32_read s polyX j; yi = f32_read s polyY j;
                               xk = f32_read s polyX k; yk = f32_read s polyY k
                           in (j, if ray_crosses x y xi yi xk yk then \<not> inside else inside))
                        [0..<n] (n - 1, False))
        in u8_write s results i (if inside then 1 else 0))"

definition batchPointsInPolygon_store :: "store \<Rightarrow> nat \<Rightarrow> Point2D list \<Rightarrow> nat \<times> store" where
  \<comment> \<open>\<open>screenPositions\<close> is the address of the caller's buffer; the result is the address
      of the mask and the store after the call\<close>
  "batchPointsInPolygon_store s screenPositions polygon =
     (let pointCount = rat_of_nat (f32_length s screenPositions) / 2;
          (results, s) = new_Uint8Array (to_index pointCount) s
      in
      if length polygon < 3 then (results, s)
      else
        let bounds = getPolygonBounds polygon;
            n = length polygon;
            (polyX, s) = new_Float32Array n s;
            (polyY, s) = new_Float32Array n s;
            s = fold (copy_vertex_store polygon polyX polyY) [0..<n] s;
            s = fold (classify_point_store screenPositions results polyX polyY bounds n)
                  [0..<loop_count pointCount] s
        in (results, s))"

definition project_point_store ::
  "nat \<Rightarrow> nat \<Rightarrow> number list \<Rightarrow> number \<Rightarrow> number \<Rightarrow> nat \<Rightarrow> store \<Rightarrow> store" where
  \<comment> \<open>the body of the loop of \<^verbatim>\<open>projectPointsToScreen\<close>\<close>
  "project_point_store positions screenPositions e halfWidth halfHeight i s =
     (let x = f32_read s positions (i * 3);
          y = f32_read s positions (i * 3 + 1);
          z = f32_read s positions (i * 3 + 2);
          w = num_add (num_add (num_add (num_mul (elem e 3) x) (num_mul (elem e 7) y))
                               (num_mul (elem e 11) z)) (elem e 15)
      in
      if num_seq w (Fin 0)
      then f32_write (f32_write s screenPositions (i * 2) NegInf)
                     screenPositions (i * 2 + 1) NegInf
      else
        let invW = num_div (Fin 1) w;
            ndcX = num_mul (num_add (num_add (num_add (num_mul (elem e 0) x)
                               (num_mul (elem e 4) y)) (num_mul (elem e 8) z)) (elem e 12)) invW;
            ndcY = num_mul (num_add (num_add (num_add (num_mul (elem e 1) x)
                               (num_mul (elem e 5) y)) (num_mul (elem e 9) z)) (elem e 13)) invW
        in f32_write (f32_write s screenPositions (i * 2)
                        (num_mul (num_add ndcX (Fin 1)) halfWidth))
                     screenPositions (i * 2 + 1)
                     (num_mul (num_sub (Fin 1) ndcY) halfHeight))"

definition projectPointsToScreen_store ::
  "store \<Rightarrow> nat \<Rightarrow> number list \<Rightarrow> number \<Rightarrow> number \<Rightarrow> nat \<times> store" where
  \<comment> \<open>\<open>positions\<close> is the address of the caller's buffer; the result is the address of
      the screen buffer and the store after the call\<close>
  "projectPointsToScreen_store s positions e width height =
     (let pointCount = rat_of_nat (f32_length s positions) / 3;
          (screenPositions, s) = new_Float32Array (to_index (pointCount * 2)) s;
          halfWidth = num_div width (Fin 2);
          halfHeight = num_div height (Fin 2);
          s = fold (project_point_store positions screenPositions e halfWidth halfHeight)
                [0..<loop_count pointCount] s
      in (screenPositions, s))"

section \<open>components/LassoSelector.tsx\<close>

text \<open>
  The capture state is the two refs \<^verbatim>\<open>isDrawing\<close> and \<^verbatim>\<open>pathRef\<close>. A handler receives the
  mouse event and the rectangle that \<^verbatim>\<open>canvas.getBoundingClientRect()\<close> returns at that
  moment. Drawing on the overlay canvas does not touch the state and is left out.
  Reading \<^verbatim>\<open>lastPoint.x\<close> when the path is empty raises a \<^verbatim>\<open>TypeError\<close>.
\<close>

datatype error = TypeError | RangeError

record MouseEvent =
  clientX :: number
  clientY :: number

record DOMRect =
  rect_left :: number
  rect_top :: number

record LassoState =
  isDrawing :: bool
  pathRef :: "Point2D list"

definition handleMouseDown :: "DOMRect \<Rightarrow> MouseEvent \<Rightarrow> LassoState \<Rightarrow> LassoState" where
  "handleMouseDown rect e s =
     (let x = num_sub (clientX e) (rect_left rect);
          y = num_sub (clientY e) (rect_top rect)
      in s\<lparr>isDrawing := True, pathRef := [\<lparr>pt_x = x, pt_y = y\<rparr>]\<rparr>)"

definition handleMouseMove :: "DOMRect \<Rightarrow> MouseEvent \<Rightarrow> LassoState \<Rightarrow> error + LassoState" where
  "handleMouseMove rect e s =
     (if \<not> isDrawing s then Inr s
      else
        let x = num_sub (clientX e) (rect_left rect);
            y = num_sub (clientY e) (rect_top rect)
        in
        if pathRef s = [] then Inl TypeError
        else
          let lastPoint = last (pathRef s);
              dx = num_sub x (pt_x lastPoint);
              dy = num_sub y (pt_y lastPoint)
          in
          if num_lt (num_add (num_mul dx dx) (num_mul dy dy)) (Fin 16) then Inr s
          else Inr (s\<lparr>pathRef := pathRef s @ [\<lparr>pt_x = x, pt_y = y\<rparr>]\<rparr>))"

fun dispatch_moves :: "(DOMRect \<times> MouseEvent) list \<Rightarrow> LassoState \<Rightarrow> error + LassoState" where
  \<comment> \<open>the \<^verbatim>\<open>mousemove\<close> events of a gesture, delivered in order; an exception ends it\<close>
  "dispatch_moves [] s = Inr s"
| "dispatch_moves ((rect, e) # es) s =
     (case handleMouseMove rect e s of
        Inl err \<Rightarrow> Inl err
      | Inr s' \<Rightarrow> dispatch_moves es s')"

definition pointer_position :: "DOMRect \<Rightarrow> MouseEvent \<Rightarrow> Point2D" where
  \<comment> \<open>the pointer position in canvas coordinates\<close>
  "pointer_position rect e =
     \<lparr>pt_x = num_sub (clientX e) (rect_left rect), pt_y = num_sub (clientY e) (rect_top rect)\<rparr>"

definition squared_distance :: "Point2D \<Rightarrow> Point2D \<Rightarrow> number" where
  \<comment> \<open>\<^verbatim>\<open>dx * dx + dy * dy\<close> from the vertex \<open>p\<close> to the position \<open>q\<close>\<close>
  "squared_distance p q =
     (let dx = num_sub (pt_x q) (pt_x p); dy = num_sub (pt_y q) (pt_y p)
      in num_add (num_mul dx dx) (num_mul dy dy))"

fun num_le :: "number \<Rightarrow> number \<Rightarrow> bool" where
  \<comment> \<open>\<^verbatim>\<open>a <= b\<close>\<close>
  "num_le NaN _ = False"
| "num_le _ NaN = False"
| "num_le a b = (\<not> num_lt b a)"

text \<open>
  The path of a gesture. \<open>move_positions\<close> are the pointer positions of its \<^verbatim>\<open>mousemove\<close>
  events in canvas coordinates, and \<open>recorded v ps\<close> are those of the positions \<open>ps\<close>
  that the downsampling keeps when \<open>v\<close> is the last recorded vertex: a position closer
  to the last recorded vertex than the threshold is dropped, any other becomes the
  last recorded vertex.
\<close>

definition move_positions :: "(DOMRect \<times> MouseEvent) list \<Rightarrow> Point2D list" where
  "move_positions ms = map (\<lambda>(rect, e). pointer_position rect e) ms"

fun recorded :: "Point2D \<Rightarrow> Point2D list \<Rightarrow> Point2D list" where
  "recorded v [] = []"
| "recorded v (p # ps) =
     (if num_lt (squared_distance v p) (Fin 16) then recorded v ps else p # recorded p ps)"

section \<open>hooks/usePointCloud.ts\<close>

text \<open>
  Of the loaded point cloud \<open>setPointColors\<close> uses the colour attribute of the geometry,
  a \<^verbatim>\<open>Float32Array\<close> of three components for each point with its \<^verbatim>\<open>needsUpdate\<close> flag, and
  the copy \<^verbatim>\<open>originalColors\<close> taken when the file was loaded. The hook's state is
  \<^verbatim>\<open>null\<close> until a file is loaded. \<^verbatim>\<open>colors.set(originalColors)\<close> raises a \<^verbatim>\<open>RangeError\<close>
  when the source is longer than the target.
\<close>

record Color =
  color_r :: number
  color_g :: number
  color_b :: number

record BufferAttribute =
  attr_array :: "number list"
  needsUpdate :: bool

record PointCloudData =
  colorAttr :: "BufferAttribute option"
  pointCount :: nat
  originalColors :: "number list"

definition put3 :: "nat \<Rightarrow> 'a \<Rightarrow> 'a \<Rightarrow> 'a \<Rightarrow> 'a list \<Rightarrow> 'a list" where
  \<comment> \<open>the three stores \<^verbatim>\<open>r[i * 3] = u; r[i * 3 + 1] = v; r[i * 3 + 2] = w\<close>\<close>
  "put3 i u v w r = ((r[i * 3 := u])[i * 3 + 1 := v])[i * 3 + 2 := w]"

definition setPointColors ::
  "PointCloudData option \<Rightarrow> 8 word list \<Rightarrow> Color \<Rightarrow> error + PointCloudData option" where
  "setPointColors pointCloud indices color =
     (case pointCloud of
        None \<Rightarrow> Inr None
      | Some pc \<Rightarrow>
          (case colorAttr pc of
             None \<Rightarrow> Inr (Some pc)
           | Some attr \<Rightarrow>
               let colors = attr_array attr;
                   original = originalColors pc
               in
               if length colors < length original then Inl RangeError
               else
                 let colors = original @ drop (length original) colors;
                     colors =
                       fold (\<lambda>i colors.
                               if indices ! i \<noteq> 0
                               then put3 i (fround (color_r color)) (fround (color_g color))
                                      (fround (color_b color)) colors
                               else colors)
                            [0..<length indices] colors
                 in Inr (Some (pc\<lparr>colorAttr :=
                                   Some (attr\<lparr>attr_array := colors, needsUpdate := True\<rparr>)\<rparr>))))"

definition recolored :: "number list \<Rightarrow> 8 word list \<Rightarrow> Color \<Rightarrow> number list" where
  \<comment> \<open>the colour buffer after \<open>setPointColors\<close>, from the original colours alone\<close>
  "recolored original indices color =
     fold (\<lambda>i colors.
             if indices ! i \<noteq> 0
             then put3 i (fround (color_r color)) (fround (color_g color))
                    (fround (color_b color)) colors
             else colors)
          [0..<length indices] original"

section \<open>Buffer lengths and loop bounds\<close>

lemma to_index_half: "to_index (rat_of_nat n / 2) = n div 2"
proof -
  have "\<lfloor>rat_of_nat n / rat_of_nat 2\<rfloor> = int (n div 2)"
    by (rule floor_divide_of_nat_eq)
  then show ?thesis by (simp add: to_index_def)
qed

lemma loop_count_half: "loop_count (rat_of_nat n / 2) = (n + 1) div 2"
proof -
  have "\<lceil>rat_of_nat n / 2\<rceil> = int ((n + 1) div 2)"
  proof (rule ceiling_unique)
    have "rat_of_int (int ((n + 1) div 2)) = rat_of_nat ((n + 1) div 2)" by simp
    have "2 * ((n + 1) div 2) \<le> n + 1" by simp
    then have "rat_of_nat (2 * ((n + 1) div 2)) \<le> rat_of_nat (n + 1)"
      by (rule of_nat_mono)
    then show "rat_of_int (int ((n + 1) div 2)) - 1 < rat_of_nat n / 2"
      by simp
    have "n \<le> 2 * ((n + 1) div 2)" by presburger
    then have "rat_of_nat n \<le> rat_of_nat (2 * ((n + 1) div 2))"
      by (rule of_nat_mono)
    then show "rat_of_nat n / 2 \<le> rat_of_int (int ((n + 1) div 2))"
      by simp
  qed
  then show ?thesis by (simp add: loop_count_def)
qed

section \<open>Rounding to binary64 and binary32\<close>

text \<open>
  \<open>floor_log2\<close> is the binade of its argument, a value of the format rounds to
  itself, and any other value rounds to the neighbour that the certificate of
  \<open>round_binary_nearest\<close> names. These lemmas also evaluate the arithmetic on
  concrete inputs.
\<close>

lemma pow2_pos: "0 < pow2 k"
  by (simp add: pow2_def power_int_def)

lemma pow2_add: "pow2 (j + k) = pow2 j * pow2 k"
  by (simp add: pow2_def power_int_add)

lemma pow2_mono: "j \<le> k \<Longrightarrow> pow2 j \<le> pow2 k"
  by (simp add: pow2_def power_int_increasing)

lemma pow2_strict_mono: "j < k \<Longrightarrow> pow2 j < pow2 k"
  by (simp add: pow2_def power_int_strict_increasing)

lemma pow2_nat: "0 \<le> k \<Longrightarrow> pow2 k = 2 ^ nat k"
  by (simp add: pow2_def power_int_nonneg_exp)

lemma of_int_bitlen_bounds:
  assumes "0 < n"
  shows "pow2 (bitlen n - 1) \<le> rat_of_int n" and "rat_of_int n < pow2 (bitlen n)"
proof -
  from assms have pos: "0 \<le> bitlen n - 1"
    using bitlen_nonneg [of n] bitlen_eq_zero_iff [of n] by linarith
  from bitlen_bounds [OF assms]
  have lo: "2 ^ nat (bitlen n - 1) \<le> n" and hi: "n < 2 ^ nat (bitlen n)"
    by simp_all
  from lo have "rat_of_int (2 ^ nat (bitlen n - 1)) \<le> rat_of_int n"
    by (simp only: of_int_le_iff)
  then show "pow2 (bitlen n - 1) \<le> rat_of_int n"
    using pos by (simp add: pow2_nat)
  from hi have "rat_of_int n < rat_of_int (2 ^ nat (bitlen n))"
    by (simp only: of_int_less_iff)
  then show "rat_of_int n < pow2 (bitlen n)"
    using pos by (simp add: pow2_nat)
qed

lemma floor_log2_bounds:
  assumes "0 < a"
  shows "pow2 (floor_log2 a) \<le> a" and "a < pow2 (floor_log2 a + 1)"
proof -
  obtain n d where qd: "quotient_of a = (n, d)"
    by (cases "quotient_of a")
  then have d: "0 < d" and a: "a = rat_of_int n / rat_of_int d"
    by (auto dest: quotient_of_denom_pos quotient_of_div)
  with assms have n: "0 < n"
    by (simp add: zero_less_divide_iff)
  let ?k = "bitlen n - bitlen d"
  have "pow2 (?k - 1) * rat_of_int d < pow2 (?k - 1) * pow2 (bitlen d)"
    using of_int_bitlen_bounds(2) [OF d] pow2_pos by simp
  also have "\<dots> = pow2 (bitlen n - 1)"
    by (simp add: pow2_add [symmetric])
  also have "\<dots> \<le> rat_of_int n"
    by (rule of_int_bitlen_bounds(1) [OF n])
  finally have lower: "pow2 (?k - 1) < a"
    using d by (simp add: a pos_less_divide_eq)
  have "rat_of_int n < pow2 (bitlen n)"
    by (rule of_int_bitlen_bounds(2) [OF n])
  also have "\<dots> = pow2 (?k + 1) * pow2 (bitlen d - 1)"
    by (simp add: pow2_add [symmetric])
  also have "\<dots> \<le> pow2 (?k + 1) * rat_of_int d"
    using of_int_bitlen_bounds(1) [OF d] pow2_pos by simp
  finally have upper: "a < pow2 (?k + 1)"
    using d by (simp add: a pos_divide_less_eq)
  have fl: "floor_log2 a = (if pow2 ?k \<le> a then ?k else ?k - 1)"
    by (simp add: floor_log2_def qd Let_def)
  show "pow2 (floor_log2 a) \<le> a"
    using lower by (simp add: fl)
  show "a < pow2 (floor_log2 a + 1)"
    using upper by (simp add: fl)
qed

lemma floor_log2_unique:
  assumes "pow2 e \<le> a" and "a < pow2 (e + 1)"
  shows "floor_log2 a = e"
proof -
  have pos: "0 < a"
    using assms(1) pow2_pos [of e] by simp
  have "pow2 (floor_log2 a) < pow2 (e + 1)"
    using floor_log2_bounds(1) [OF pos] assms(2) by simp
  then have "floor_log2 a < e + 1"
    using pow2_mono [of "e + 1" "floor_log2 a"] by (cases "floor_log2 a < e + 1") auto
  moreover have "pow2 e < pow2 (floor_log2 a + 1)"
    using floor_log2_bounds(2) [OF pos] assms(1) by simp
  then have "e < floor_log2 a + 1"
    using pow2_mono [of "floor_log2 a + 1" e] by (cases "e < floor_log2 a + 1") auto
  ultimately show ?thesis by simp
qed

lemma round_half_even_near:
  assumes "\<bar>r - of_int m\<bar> < 1 / 2"
  shows "round_half_even r = m"
proof (cases "of_int m \<le> r")
  case True
  with assms have "\<lfloor>r\<rfloor> = m" by (intro floor_unique) auto
  with assms True show ?thesis by (simp add: round_half_even_def)
next
  case False
  with assms have "\<lfloor>r\<rfloor> = m - 1" by (intro floor_unique) auto
  with assms False show ?thesis by (simp add: round_half_even_def Let_def)
qed

lemma round_half_even_tie:
  assumes "\<bar>r - of_int m\<bar> = 1 / 2" and "even m"
  shows "round_half_even r = m"
proof (cases "of_int m \<le> r")
  case True
  with assms have "\<lfloor>r\<rfloor> = m" by (intro floor_unique) auto
  with assms True show ?thesis by (simp add: round_half_even_def)
next
  case False
  with assms have "\<lfloor>r\<rfloor> = m - 1" by (intro floor_unique) auto
  with assms False show ?thesis by (simp add: round_half_even_def Let_def)
qed

lemma round_half_even_of_int: "round_half_even (of_int m) = m"
  by (rule round_half_even_near) simp


lemma round_binary_neg:
  "round_binary p emin emax (- q) = num_neg (round_binary p emin emax q)"
  by (cases "q = 0"; cases "0 < q") (auto simp: round_binary_def Let_def)

lemma round_binary_nearest:
  assumes q: "pow2 e \<le> q" "q < pow2 (e + 1)" and e: "emin \<le> e"
    and m: "\<bar>q - of_int m * pow2 (e - (int p - 1))\<bar> < pow2 (e - (int p - 1)) / 2 \<or>
            \<bar>q - of_int m * pow2 (e - (int p - 1))\<bar> = pow2 (e - (int p - 1)) / 2 \<and> even m"
    and fin: "of_int m * pow2 (e - (int p - 1)) < pow2 (emax + 1)"
  shows "round_binary p emin emax q = Fin (of_int m * pow2 (e - (int p - 1)))"
proof -
  let ?u = "pow2 (e - (int p - 1))"
  have pos: "0 < q"
    using q(1) pow2_pos [of e] by simp
  have u: "0 < ?u" by (rule pow2_pos)
  have fl: "floor_log2 q = e"
    using q by (rule floor_log2_unique)
  have "q / ?u - of_int m = (q - of_int m * ?u) / ?u"
    using u by (simp add: diff_divide_distrib)
  then have "\<bar>q / ?u - of_int m\<bar> = \<bar>q - of_int m * ?u\<bar> / ?u"
    by (simp only: abs_divide abs_of_pos [OF u])
  with m u have "\<bar>q / ?u - of_int m\<bar> < 1 / 2 \<or> \<bar>q / ?u - of_int m\<bar> = 1 / 2 \<and> even m"
    by (auto simp: field_simps)
  then have rhe: "round_half_even (q / ?u) = m"
    by (auto intro: round_half_even_near round_half_even_tie)
  have mx: "max (floor_log2 q) emin = e"
    using fl e by simp
  show ?thesis
    unfolding round_binary_def Let_def abs_of_pos [OF pos] mx rhe
    using pos fin by simp
qed

lemma round_binary_exact:
  assumes n: "\<bar>n\<bar> < 2 ^ p" and k: "emin - (int p - 1) \<le> k" "k + int p \<le> emax + 1"
  shows "round_binary p emin emax (of_int n * pow2 k) = Fin (of_int n * pow2 k)"
proof (cases "n = 0")
  case True
  then show ?thesis by (simp add: round_binary_def)
next
  case False
  let ?a = "rat_of_int \<bar>n\<bar> * pow2 k"
  let ?e = "max (floor_log2 ?a) emin"
  let ?u = "pow2 (?e - (int p - 1))"
  have a: "0 < ?a"
    using False pow2_pos [of k] by simp
  have "rat_of_int \<bar>n\<bar> < rat_of_int (2 ^ p)"
    using n by (simp only: of_int_less_iff)
  then have "rat_of_int \<bar>n\<bar> < pow2 (int p)"
    by (simp add: pow2_nat)
  then have lt: "?a < pow2 (int p + k)"
    using pow2_pos [of k] by (simp add: pow2_add)
  have "pow2 (floor_log2 ?a) < pow2 (int p + k)"
    using floor_log2_bounds(1) [OF a] lt by simp
  then have "floor_log2 ?a < int p + k"
    using pow2_mono [of "int p + k" "floor_log2 ?a"]
    by (cases "floor_log2 ?a < int p + k") auto
  with k have e: "?e - (int p - 1) \<le> k" by simp
  define j where "j = nat (k - (?e - (int p - 1)))"
  have "pow2 k = pow2 (int j) * ?u"
    using e by (simp add: j_def pow2_add [symmetric])
  then have "?a / ?u = rat_of_int \<bar>n\<bar> * (pow2 (int j) * ?u) / ?u"
    by (simp only:)
  also have "\<dots> = rat_of_int \<bar>n\<bar> * pow2 (int j)"
    using pow2_pos [of "?e - (int p - 1)"] by simp
  finally have quot: "?a / ?u = rat_of_int (\<bar>n\<bar> * 2 ^ j)"
    by (simp add: pow2_nat)
  have r: "rat_of_int (round_half_even (?a / ?u)) * ?u = ?a"
  proof -
    have "rat_of_int (round_half_even (?a / ?u)) = ?a / ?u"
      by (simp only: quot round_half_even_of_int)
    moreover have "?a / ?u * ?u = ?a"
      using pow2_pos [of "?e - (int p - 1)"] by simp
    ultimately show ?thesis by (simp only:)
  qed
  have "pow2 (int p + k) \<le> pow2 (emax + 1)"
    using k by (intro pow2_mono) simp
  with lt have fin: "\<not> pow2 (emax + 1) \<le> ?a" by simp
  have abs: "\<bar>rat_of_int n * pow2 k\<bar> = ?a"
    using pow2_pos [of k] by (simp add: abs_mult)
  have nz: "rat_of_int n * pow2 k \<noteq> 0"
    using False pow2_pos [of k] by simp
  show ?thesis
    unfolding round_binary_def Let_def abs r
    using nz fin pow2_pos [of k] False
    by (auto simp: zero_less_mult_iff not_less abs_if)
qed


lemma round64_exact:
  assumes "\<bar>n\<bar> < 2 ^ 53" and "- 1074 \<le> k" and "k \<le> 971"
  shows "round64 (of_int n * pow2 k) = Fin (of_int n * pow2 k)"
  unfolding round64_def using assms by (intro round_binary_exact) simp_all

lemma round32_exact:
  assumes "\<bar>n\<bar> < 2 ^ 24" and "- 149 \<le> k" and "k \<le> 104"
  shows "round32 (of_int n * pow2 k) = Fin (of_int n * pow2 k)"
  unfolding round32_def using assms by (intro round_binary_exact) simp_all

lemma round64_of_int: "\<bar>n\<bar> < 2 ^ 53 \<Longrightarrow> round64 (of_int n) = Fin (of_int n)"
  using round64_exact [of n 0] by (simp add: pow2_def)

lemma round32_of_int: "\<bar>n\<bar> < 2 ^ 24 \<Longrightarrow> round32 (of_int n) = Fin (of_int n)"
  using round32_exact [of n 0] by (simp add: pow2_def)

lemma round64_numeral [float_eval]:
  "numeral w < (2 ^ 53 :: int) \<Longrightarrow> round64 (numeral w) = Fin (numeral w)"
  "numeral w < (2 ^ 53 :: int) \<Longrightarrow> round64 (- numeral w) = Fin (- numeral w)"
  "round64 0 = Fin 0" "round64 1 = Fin 1" "round64 (- 1) = Fin (- 1)"
  using round64_of_int [of "numeral w"] round64_of_int [of "- numeral w"]
    round64_of_int [of 0] round64_of_int [of 1] round64_of_int [of "- 1"]
  by simp_all

lemma round32_numeral [float_eval]:
  "numeral w < (2 ^ 24 :: int) \<Longrightarrow> round32 (numeral w) = Fin (numeral w)"
  "numeral w < (2 ^ 24 :: int) \<Longrightarrow> round32 (- numeral w) = Fin (- numeral w)"
  "round32 0 = Fin 0" "round32 1 = Fin 1" "round32 (- 1) = Fin (- 1)"
  using round32_of_int [of "numeral w"] round32_of_int [of "- numeral w"]
    round32_of_int [of 0] round32_of_int [of 1] round32_of_int [of "- 1"]
  by simp_all

lemma round32_16777216: "round32 16777216 = Fin 16777216"
  using round32_exact [of 1 24] by (simp add: pow2_def)

lemma round32_16777217: "round32 16777217 = Fin 16777216"
  unfolding round32_def
  using round_binary_nearest [of 24 16777217 "- 126" 8388608 24 127]
  by (simp add: pow2_def)

section \<open>Degenerate polygons\<close>

text \<open>
  Claim C2. For a polygon with fewer than three vertices \<open>isPointInPolygon\<close> answers
  false for every query point, and \<open>batchPointsInPolygon\<close> returns the zero-filled
  mask it allocated, one byte for each pair of the screen-position buffer, through the
  early return that precedes the per-point loop.
\<close>

theorem degenerate_polygon_all_zero:
  assumes "length polygon < 3"
  shows "isPointInPolygon point polygon = False \<and>
         batchPointsInPolygon screenPositions polygon =
           replicate (length screenPositions div 2) 0"
  using assms by (simp add: isPointInPolygon_def batchPointsInPolygon_def to_index_half)

theorem degenerate_polygon_all_zero_witness:
  "length [\<lparr>pt_x = Fin 0, pt_y = Fin 0\<rparr>, \<lparr>pt_x = Fin 10, pt_y = Fin 10\<rparr>] < 3 \<and>
   isPointInPolygon \<lparr>pt_x = Fin 5, pt_y = Fin 5\<rparr>
     [\<lparr>pt_x = Fin 0, pt_y = Fin 0\<rparr>, \<lparr>pt_x = Fin 10, pt_y = Fin 10\<rparr>] = False \<and>
   batchPointsInPolygon [Fin 5, Fin 5, Fin 1, Fin 2]
     [\<lparr>pt_x = Fin 0, pt_y = Fin 0\<rparr>, \<lparr>pt_x = Fin 10, pt_y = Fin 10\<rparr>] = [0, 0]"
proof -
  have len: "length [\<lparr>pt_x = Fin 0, pt_y = Fin 0\<rparr>, \<lparr>pt_x = Fin 10, pt_y = Fin 10\<rparr>] < 3"
    by simp
  have rep: "replicate (length [Fin 5, Fin 5, Fin 1, Fin 2] div 2) (0 :: 8 word) = [0, 0]"
    by code_simp
  show ?thesis
    using degenerate_polygon_all_zero [OF len] len rep by simp
qed

section \<open>The ray-casting loop\<close>

lemma toggle_fold_xor_walk:
  "snd (fold (\<lambda>j (k, inside). (j, if C j k then \<not> inside else inside)) js (k0, b)) =
     (b \<noteq> xor_walk C k0 js)"
  by (induction js arbitrary: k0 b) auto

lemma xor_walk_cong:
  assumes "\<And>j k. j \<in> set js \<Longrightarrow> k \<in> insert k0 (set js) \<Longrightarrow> C j k = C' j k"
  shows "xor_walk C k0 js = xor_walk C' k0 js"
  using assms
proof (induction js arbitrary: k0)
  case Nil
  then show ?case by simp
next
  case (Cons j js)
  have "xor_walk C j js = xor_walk C' j js"
  proof (rule Cons.IH)
    fix i k
    assume "i \<in> set js" and "k \<in> insert j (set js)"
    then show "C i k = C' i k"
      using Cons.prems [of i k] by auto
  qed
  moreover have "C j k0 = C' j k0"
    using Cons.prems [of j k0] by simp
  ultimately show ?case by simp
qed

lemma xor_walk_nth:
  "xor_walk (\<lambda>i j. c (ps ! i) (ps ! j)) k js = edge_parity c (ps ! k) (map ((!) ps) js)"
  by (induction js arbitrary: k) auto

lemma isPointInPolygon_edge_parity:
  "isPointInPolygon point polygon =
     (3 \<le> length polygon \<and>
      edge_parity (crossing (pt_x point) (pt_y point)) (last polygon) polygon)"
proof (cases "length polygon < 3")
  case True
  then show ?thesis by (simp add: isPointInPolygon_def)
next
  case False
  then have ne: "polygon \<noteq> []" by auto
  let ?C = "\<lambda>i j. crossing (pt_x point) (pt_y point) (polygon ! i) (polygon ! j)"
  have "isPointInPolygon point polygon =
          snd (fold (\<lambda>j (k, inside). (j, if ?C j k then \<not> inside else inside))
                 [0..<length polygon] (length polygon - 1, False))"
    using False by (simp add: isPointInPolygon_def crossing_def Let_def)
  also have "\<dots> = xor_walk ?C (length polygon - 1) [0..<length polygon]"
    by (simp add: toggle_fold_xor_walk)
  also have "\<dots> = edge_parity (crossing (pt_x point) (pt_y point)) (polygon ! (length polygon - 1))
                      (map ((!) polygon) [0..<length polygon])"
    by (rule xor_walk_nth)
  also have "\<dots> = edge_parity (crossing (pt_x point) (pt_y point)) (last polygon) polygon"
    using ne by (simp add: last_conv_nth map_nth)
  finally show ?thesis using False by simp
qed

lemma edge_parity_snoc:
  "edge_parity c q (ps @ [a]) = (edge_parity c q ps \<noteq> c a (last (q # ps)))"
  by (induction ps arbitrary: q) auto

lemma edge_parity_rotate1:
  "edge_parity c (last (rotate1 ps)) (rotate1 ps) = edge_parity c (last ps) ps"
proof (cases ps)
  case Nil
  then show ?thesis by simp
next
  case (Cons a qs)
  then show ?thesis
    by (cases "qs = []") (auto simp: edge_parity_snoc)
qed

lemma edge_parity_rotate:
  "edge_parity c (last (rotate k ps)) (rotate k ps) = edge_parity c (last ps) ps"
  by (induction k) (simp_all add: edge_parity_rotate1)

section \<open>Rotating the vertex list\<close>

text \<open>
  Claim C10. The verdict of \<open>isPointInPolygon\<close> does not change when the vertex list is
  rotated by any amount, that is when a prefix of the vertices is moved to the end: the
  loop toggles once for each directed edge from a vertex to its cyclic predecessor, and
  a rotation keeps that collection of edges.
\<close>

theorem isPointInPolygon_rotate:
  "isPointInPolygon point (rotate k polygon) = isPointInPolygon point polygon \<and>
   isPointInPolygon point (drop k polygon @ take k polygon) = isPointInPolygon point polygon"
proof
  show rot: "isPointInPolygon point (rotate k polygon) = isPointInPolygon point polygon" for k
    by (simp add: isPointInPolygon_edge_parity edge_parity_rotate)
  show "isPointInPolygon point (drop k polygon @ take k polygon) = isPointInPolygon point polygon"
  proof (cases "k < length polygon")
    case True
    then have "rotate k polygon = drop k polygon @ take k polygon"
      by (simp add: rotate_drop_take)
    with rot [of k] show ?thesis by simp
  next
    case False
    then show ?thesis by simp
  qed
qed

section \<open>Loops that fill a buffer\<close>

lemma fold_update_length:
  "length (fold (\<lambda>i r. r[i := v i]) js r) = length r"
  by (induction js arbitrary: r) auto

lemma fold_update_nth:
  assumes "i < length r"
  shows "fold (\<lambda>i r. r[i := v i]) [0..<m] r ! i = (if i < m then v i else r ! i)"
  using assms
proof (induction m)
  case 0
  then show ?case by simp
next
  case (Suc m)
  show ?case
  proof (cases "i = m")
    case True
    with Suc.prems show ?thesis by (simp add: fold_update_length)
  next
    case False
    with Suc show ?thesis by (auto simp: less_Suc_eq)
  qed
qed

lemma map_take_update:
  assumes "k < length ps" and "length c = length ps"
  shows "(map h (take k ps) @ drop k c)[k := h (ps ! k)] =
           map h (take (Suc k) ps) @ drop (Suc k) c"
  using assms
  by (simp add: list_update_append take_Suc_conv_app_nth upd_conv_take_nth_drop)

lemma copy_loop:
  assumes "k \<le> length ps" and "length a = length ps" and "length b = length ps"
  shows "fold (\<lambda>i (a, b). (a[i := f (ps ! i)], b[i := g (ps ! i)])) [0..<k] (a, b) =
           (map f (take k ps) @ drop k a, map g (take k ps) @ drop k b)"
  using assms
proof (induction k)
  case 0
  then show ?case by simp
next
  case (Suc k)
  then show ?case by (simp add: map_take_update)
qed

section \<open>The batch classifier\<close>

lemma batch_inner_loop:
  assumes "3 \<le> length polygon"
  shows "snd (fold (\<lambda>j (k, inside).
                 let xi = map (\<lambda>p. fround (pt_x p)) polygon ! j;
                     yi = map (\<lambda>p. fround (pt_y p)) polygon ! j;
                     xk = map (\<lambda>p. fround (pt_x p)) polygon ! k;
                     yk = map (\<lambda>p. fround (pt_y p)) polygon ! k
                 in (j, if ray_crosses x y xi yi xk yk then \<not> inside else inside))
              [0..<length polygon] (length polygon - 1, False)) =
         isPointInPolygon \<lparr>pt_x = x, pt_y = y\<rparr> (map fround_point polygon)"
proof -
  let ?n = "length polygon"
  let ?C = "\<lambda>j k. ray_crosses x y (map (\<lambda>p. fround (pt_x p)) polygon ! j)
                     (map (\<lambda>p. fround (pt_y p)) polygon ! j)
                     (map (\<lambda>p. fround (pt_x p)) polygon ! k)
                     (map (\<lambda>p. fround (pt_y p)) polygon ! k)"
  let ?D = "\<lambda>j k. crossing x y (map fround_point polygon ! j) (map fround_point polygon ! k)"
  have "xor_walk ?C (?n - 1) [0..<?n] = xor_walk ?D (?n - 1) [0..<?n]"
  proof (rule xor_walk_cong)
    fix j k
    assume "j \<in> set [0..<?n]" and "k \<in> insert (?n - 1) (set [0..<?n])"
    with assms have "j < ?n" and "k < ?n" by auto
    then show "?C j k = ?D j k"
      by (simp add: crossing_def fround_point_def)
  qed
  also have "\<dots> = edge_parity (crossing x y) (map fround_point polygon ! (?n - 1))
                      (map ((!) (map fround_point polygon)) [0..<?n])"
    by (rule xor_walk_nth)
  also have "map ((!) (map fround_point polygon)) [0..<?n] = map fround_point polygon"
    using map_nth [of "map fround_point polygon"] by simp
  also have "map fround_point polygon ! (?n - 1) = last (map fround_point polygon)"
    using assms by (subst last_conv_nth) auto
  finally have "xor_walk ?C (?n - 1) [0..<?n] =
      isPointInPolygon \<lparr>pt_x = x, pt_y = y\<rparr> (map fround_point polygon)"
    using assms by (simp add: isPointInPolygon_edge_parity)
  then show ?thesis
    by (simp add: Let_def toggle_fold_xor_walk)
qed

lemma batch_as_fold:
  assumes "3 \<le> length polygon"
  shows "batchPointsInPolygon screenPositions polygon =
           fold (\<lambda>i r. r[i := mask_value polygon (elem screenPositions (i * 2))
                                   (elem screenPositions (i * 2 + 1))])
             [0..<(length screenPositions + 1) div 2]
             (replicate (length screenPositions div 2) 0)"
proof -
  have copy: "fold (\<lambda>i (a, b). (a[i := fround (pt_x (polygon ! i))],
                                  b[i := fround (pt_y (polygon ! i))]))
               [0..<length polygon]
               (replicate (length polygon) (Fin 0), replicate (length polygon) (Fin 0)) =
             (map (\<lambda>p. fround (pt_x p)) polygon, map (\<lambda>p. fround (pt_y p)) polygon)"
    using copy_loop [of "length polygon" polygon "replicate (length polygon) (Fin 0)"
        "replicate (length polygon) (Fin 0)" "\<lambda>p. fround (pt_x p)" "\<lambda>p. fround (pt_y p)"]
    by simp
  have small: "\<not> length polygon < 3"
    using assms by simp
  have upd: "(if c then r[i := (0 :: 8 word)] else r[i := (if d then 1 else 0)]) =
             r[i := (if \<not> c \<and> d then 1 else 0)]" for c d r i
    by simp
  show ?thesis
    unfolding batchPointsInPolygon_def Let_def copy prod.case
      batch_inner_loop [OF assms, unfolded Let_def] to_index_half loop_count_half
      if_not_P [OF small] upd mask_value_def
    by (rule refl)
qed


lemma batch_length:
  "length (batchPointsInPolygon screenPositions polygon) = length screenPositions div 2"
proof (cases "length polygon < 3")
  case True
  then show ?thesis by (simp add: batchPointsInPolygon_def to_index_half)
next
  case False
  then have "3 \<le> length polygon" by simp
  then show ?thesis by (simp add: batch_as_fold fold_update_length)
qed

lemma batch_nth:
  assumes "3 \<le> length polygon" and "i < length screenPositions div 2"
  shows "batchPointsInPolygon screenPositions polygon ! i =
           mask_value polygon (screenPositions ! (2 * i)) (screenPositions ! (2 * i + 1))"
proof -
  from assms(2) have "i < (length screenPositions + 1) div 2"
    and "i * 2 < length screenPositions" and "i * 2 + 1 < length screenPositions"
    by auto
  with assms show ?thesis
    by (simp add: batch_as_fold fold_update_nth elem_def mult.commute)
qed

lemmas geometry_eval =
  isPointInPolygon_edge_parity crossing_def ray_crosses_def num_gt_def num_sub_def
  signed_inf_def getPolygonBounds_def bounds_step_def outside_bounds_def
  fround_point_def mask_value_def

text \<open>
  What the batch computes for the point \<open>i\<close> of the buffer, for a polygon of at least
  three vertices: the bounding-box test against the vertices as given, and the ray
  casting against the \<^verbatim>\<open>Float32Array\<close> copies \<^verbatim>\<open>polyX\<close>, \<^verbatim>\<open>polyY\<close>, whose entries are the
  vertex coordinates rounded to single precision. Where the rounding changes no vertex
  the byte is the conjunction of the bounding-box test and \<open>isPointInPolygon\<close>.
\<close>

lemma batch_nth_rounded_polygon:
  assumes "3 \<le> length polygon" and "i < length screenPositions div 2"
  shows "batchPointsInPolygon screenPositions polygon ! i =
           (if \<not> outside_bounds (getPolygonBounds polygon)
                   (screenPositions ! (2 * i)) (screenPositions ! (2 * i + 1)) \<and>
               isPointInPolygon
                 \<lparr>pt_x = screenPositions ! (2 * i), pt_y = screenPositions ! (2 * i + 1)\<rparr>
                 (map fround_point polygon)
            then 1 else 0) \<and>
         (map fround_point polygon = polygon \<longrightarrow>
          batchPointsInPolygon screenPositions polygon ! i =
           (if \<not> outside_bounds (getPolygonBounds polygon)
                   (screenPositions ! (2 * i)) (screenPositions ! (2 * i + 1)) \<and>
               isPointInPolygon
                 \<lparr>pt_x = screenPositions ! (2 * i), pt_y = screenPositions ! (2 * i + 1)\<rparr>
                 polygon
            then 1 else 0))"
  using batch_nth [OF assms] by (auto simp: mask_value_def)

lemma round32_lasso:
  "round32 (3521955646092083 / 35184372088832) = Fin (13120307 / 131072)"
  "round32 (3523714864696525 / 17592186044416) = Fin (13126861 / 65536)"
  "round32 (3530751739114291 / 17592186044416) = Fin (13153075 / 65536)"
  unfolding round32_def
  using round_binary_nearest [of 6 "3521955646092083 / 35184372088832" "- 126" 13120307 24 127]
    round_binary_nearest [of 7 "3523714864696525 / 17592186044416" "- 126" 13126861 24 127]
    round_binary_nearest [of 7 "3530751739114291 / 17592186044416" "- 126" 13153075 24 127]
  by (simp_all add: pow2_def)

lemma round64_lasso:
  "round64 (3521955646092083 / 35184372088832) = Fin (3521955646092083 / 35184372088832)"
  "round64 (3523714864696525 / 17592186044416) = Fin (3523714864696525 / 17592186044416)"
  "round64 (3530751739114291 / 17592186044416) = Fin (3530751739114291 / 17592186044416)"
  "round64 (3539547724762317 / 35184372088832) = Fin (3539547724762317 / 35184372088832)"
  "round64 (3539547832136499 / 35184372088832) = Fin (3539547832136499 / 35184372088832)"
  "round64 (- (3539547832136499 / 35184372088832)) = Fin (- (3539547832136499 / 35184372088832))"
  "round64 (- (53687091 / 17592186044416)) = Fin (- (53687091 / 17592186044416))"
  using round64_exact [of 3521955646092083 "- 45"] round64_exact [of 3523714864696525 "- 44"]
    round64_exact [of 3530751739114291 "- 44"] round64_exact [of 3539547724762317 "- 45"]
    round64_exact [of 3539547832136499 "- 45"] round64_exact [of "- 3539547832136499" "- 45"]
    round64_exact [of "- 53687091" "- 44"]
  by (simp_all add: pow2_def)

lemma round32_lasso_point:
  "round32 (13153075 / 65536) = Fin (13153075 / 65536)"
  using round32_exact [of 13153075 "- 16"] by (simp add: pow2_def)

text \<open>
  Claim C1. The mask byte of a point is to be 1 exactly when the point lies in the
  bounding box of the polygon and \<open>isPointInPolygon\<close> accepts it against that polygon,
  so that the batch agrees with the predicate. The batch classifier does not compute
  this. For the lasso with the corners \<open>(100.1, 100.1)\<close> and \<open>(200.3, 200.7)\<close>, whose
  coordinates are binary64 values that are not single-precision values, the copy rounds
  the upper side \<open>y = 200.7\<close> down to \<open>13153075 / 65536\<close>. The point
  \<open>(150, 13153075 / 65536)\<close> of the buffer lies strictly between the sides of the
  lasso, passes the bounding-box test, and \<open>isPointInPolygon\<close> accepts it; the batch
  returns the byte 0 for it.
\<close>

theorem batch_rejects_interior_point:
  "fround (Fin 150) = Fin 150 \<and> fround (Fin (13153075 / 65536)) = Fin (13153075 / 65536) \<and>
   round64 (3521955646092083 / 35184372088832) = Fin (3521955646092083 / 35184372088832) \<and>
   round64 (3523714864696525 / 17592186044416) = Fin (3523714864696525 / 17592186044416) \<and>
   round64 (3530751739114291 / 17592186044416) = Fin (3530751739114291 / 17592186044416) \<and>
   num_lt (Fin (3521955646092083 / 35184372088832)) (Fin 150) \<and>
   num_lt (Fin 150) (Fin (3523714864696525 / 17592186044416)) \<and>
   num_lt (Fin (3521955646092083 / 35184372088832)) (Fin (13153075 / 65536)) \<and>
   num_lt (Fin (13153075 / 65536)) (Fin (3530751739114291 / 17592186044416)) \<and>
   \<not> outside_bounds
       (getPolygonBounds
          [\<lparr>pt_x = Fin (3521955646092083 / 35184372088832),
            pt_y = Fin (3521955646092083 / 35184372088832)\<rparr>,
           \<lparr>pt_x = Fin (3523714864696525 / 17592186044416),
            pt_y = Fin (3521955646092083 / 35184372088832)\<rparr>,
           \<lparr>pt_x = Fin (3523714864696525 / 17592186044416),
            pt_y = Fin (3530751739114291 / 17592186044416)\<rparr>,
           \<lparr>pt_x = Fin (3521955646092083 / 35184372088832),
            pt_y = Fin (3530751739114291 / 17592186044416)\<rparr>])
       (Fin 150) (Fin (13153075 / 65536)) \<and>
   isPointInPolygon \<lparr>pt_x = Fin 150, pt_y = Fin (13153075 / 65536)\<rparr>
     [\<lparr>pt_x = Fin (3521955646092083 / 35184372088832),
       pt_y = Fin (3521955646092083 / 35184372088832)\<rparr>,
      \<lparr>pt_x = Fin (3523714864696525 / 17592186044416),
       pt_y = Fin (3521955646092083 / 35184372088832)\<rparr>,
      \<lparr>pt_x = Fin (3523714864696525 / 17592186044416),
       pt_y = Fin (3530751739114291 / 17592186044416)\<rparr>,
      \<lparr>pt_x = Fin (3521955646092083 / 35184372088832),
       pt_y = Fin (3530751739114291 / 17592186044416)\<rparr>] \<and>
   batchPointsInPolygon [Fin 150, Fin (13153075 / 65536)]
     [\<lparr>pt_x = Fin (3521955646092083 / 35184372088832),
       pt_y = Fin (3521955646092083 / 35184372088832)\<rparr>,
      \<lparr>pt_x = Fin (3523714864696525 / 17592186044416),
       pt_y = Fin (3521955646092083 / 35184372088832)\<rparr>,
      \<lparr>pt_x = Fin (3523714864696525 / 17592186044416),
       pt_y = Fin (3530751739114291 / 17592186044416)\<rparr>,
      \<lparr>pt_x = Fin (3521955646092083 / 35184372088832),
       pt_y = Fin (3530751739114291 / 17592186044416)\<rparr>] ! 0 = 0 \<and>
   length (batchPointsInPolygon [Fin 150, Fin (13153075 / 65536)]
     [\<lparr>pt_x = Fin (3521955646092083 / 35184372088832),
       pt_y = Fin (3521955646092083 / 35184372088832)\<rparr>,
      \<lparr>pt_x = Fin (3523714864696525 / 17592186044416),
       pt_y = Fin (3521955646092083 / 35184372088832)\<rparr>,
      \<lparr>pt_x = Fin (3523714864696525 / 17592186044416),
       pt_y = Fin (3530751739114291 / 17592186044416)\<rparr>,
      \<lparr>pt_x = Fin (3521955646092083 / 35184372088832),
       pt_y = Fin (3530751739114291 / 17592186044416)\<rparr>]) = 1"
  by (simp add: batch_length batch_nth geometry_eval float_eval round32_lasso round64_lasso
      round32_lasso_point)

text \<open>
  The two tests disagree in the other direction as well. In binary64 the intercept of
  the edge from \<open>(-1, 0)\<close> to \<open>(-2^60, 2)\<close> at \<open>y = 0\<close> is computed as \<open>0\<close>, since
  \<open>2^60 - 1\<close> rounds to \<open>2^60\<close>; \<open>isPointInPolygon\<close> therefore accepts the point
  \<open>(-1/2, 0)\<close>, which lies right of every vertex, and the batch rejects it by the
  bounding-box test.
\<close>

lemma round64_near_2_60:
  "round64 1152921504606846975 = Fin 1152921504606846976"
  "round64 (- 1152921504606846975) = Fin (- 1152921504606846976)"
proof -
  show pos: "round64 1152921504606846975 = Fin 1152921504606846976"
    unfolding round64_def
    using round_binary_nearest [of 59 1152921504606846975 "- 1022" 9007199254740992 53 1023]
    by (simp add: pow2_def)
  show "round64 (- 1152921504606846975) = Fin (- 1152921504606846976)"
    using round_binary_neg [of 53 "- 1022" 1023 1152921504606846975] pos
    by (simp add: round64_def)
qed

lemma round64_2_60:
  "round64 1152921504606846976 = Fin 1152921504606846976"
  "round64 (- 1152921504606846976) = Fin (- 1152921504606846976)"
  "round64 2305843009213693952 = Fin 2305843009213693952"
  "round64 (- 2305843009213693952) = Fin (- 2305843009213693952)"
  using round64_exact [of 1 60] round64_exact [of "- 1" 60]
    round64_exact [of 1 61] round64_exact [of "- 1" 61]
  by (simp_all add: pow2_def)

lemma round32_2_60:
  "round32 (- 1152921504606846976) = Fin (- 1152921504606846976)"
  using round32_exact [of "- 1" 60] by (simp add: pow2_def)

lemma predicate_accepts_outside_bounds:
  "outside_bounds
     (getPolygonBounds
        [\<lparr>pt_x = Fin (- 1), pt_y = Fin 0\<rparr>, \<lparr>pt_x = Fin (- 1152921504606846976), pt_y = Fin 2\<rparr>,
         \<lparr>pt_x = Fin (- 1152921504606846976), pt_y = Fin 0\<rparr>])
     (Fin (- 1 / 2)) (Fin 0) \<and>
   isPointInPolygon \<lparr>pt_x = Fin (- 1 / 2), pt_y = Fin 0\<rparr>
     [\<lparr>pt_x = Fin (- 1), pt_y = Fin 0\<rparr>, \<lparr>pt_x = Fin (- 1152921504606846976), pt_y = Fin 2\<rparr>,
      \<lparr>pt_x = Fin (- 1152921504606846976), pt_y = Fin 0\<rparr>] \<and>
   batchPointsInPolygon [Fin (- 1 / 2), Fin 0]
     [\<lparr>pt_x = Fin (- 1), pt_y = Fin 0\<rparr>, \<lparr>pt_x = Fin (- 1152921504606846976), pt_y = Fin 2\<rparr>,
      \<lparr>pt_x = Fin (- 1152921504606846976), pt_y = Fin 0\<rparr>] ! 0 = 0"
  by (simp add: batch_nth geometry_eval float_eval round64_near_2_60 round64_2_60 round32_2_60)

section \<open>The bounding box\<close>

lemma num_lt_irrefl: "\<not> num_lt a a"
  by (cases a) auto

lemma num_lt_trans: "num_lt a b \<Longrightarrow> num_lt b c \<Longrightarrow> num_lt a c"
  by (cases a; cases b; cases c) auto

lemma num_lt_not_NaN: "num_lt a b \<Longrightarrow> a \<noteq> NaN \<and> b \<noteq> NaN"
  by (cases a; cases b) auto

lemma num_lt_PosInf: "num_lt a PosInf \<longleftrightarrow> a \<noteq> NaN \<and> a \<noteq> PosInf"
  by (cases a) auto

lemma num_lt_NegInf: "num_lt NegInf a \<longleftrightarrow> a \<noteq> NaN \<and> a \<noteq> NegInf"
  by (cases a) auto

lemma bounds_step_fields:
  "minX (bounds_step p b) = (if num_lt (pt_x p) (minX b) then pt_x p else minX b)"
  "maxX (bounds_step p b) = (if num_gt (pt_x p) (maxX b) then pt_x p else maxX b)"
  "minY (bounds_step p b) = (if num_lt (pt_y p) (minY b) then pt_y p else minY b)"
  "maxY (bounds_step p b) = (if num_gt (pt_y p) (maxY b) then pt_y p else maxY b)"
  by (simp_all add: bounds_step_def Let_def)

lemma fold_bounds_step:
  "fold bounds_step ps b =
     \<lparr>minX = fold (\<lambda>v m. if num_lt v m then v else m) (map pt_x ps) (minX b),
      maxX = fold (\<lambda>v m. if num_gt v m then v else m) (map pt_x ps) (maxX b),
      minY = fold (\<lambda>v m. if num_lt v m then v else m) (map pt_y ps) (minY b),
      maxY = fold (\<lambda>v m. if num_gt v m then v else m) (map pt_y ps) (maxY b)\<rparr>"
proof (induction ps arbitrary: b)
  case Nil
  then show ?case by simp
next
  case (Cons p ps)
  show ?case
    by (simp add: Cons.IH bounds_step_fields)
qed

lemma getPolygonBounds_running:
  "getPolygonBounds polygon =
     \<lparr>minX = running_min (map pt_x polygon), maxX = running_max (map pt_x polygon),
      minY = running_min (map pt_y polygon), maxY = running_max (map pt_y polygon)\<rparr>"
  by (simp add: getPolygonBounds_def fold_bounds_step running_min_def running_max_def)

lemma running_min_snoc:
  "running_min (vs @ [v]) = (if num_lt v (running_min vs) then v else running_min vs)"
  by (simp add: running_min_def)

lemma running_max_snoc:
  "running_max (vs @ [v]) = (if num_gt v (running_max vs) then v else running_max vs)"
  by (simp add: running_max_def)

lemma running_min_props:
  "running_min vs \<noteq> NaN"
  "\<forall>v \<in> set vs. \<not> num_lt v (running_min vs)"
  "running_min vs = PosInf \<or> running_min vs \<in> set vs"
proof (induction vs rule: rev_induct)
  case Nil
  {
    case 1 show ?case by (simp add: running_min_def)
  next
    case 2 show ?case by simp
  next
    case 3 show ?case by (simp add: running_min_def)
  }
next
  case (snoc v vs)
  {
    case 1
    show ?case
      using snoc(1) num_lt_not_NaN [of v "running_min vs"] by (simp add: running_min_snoc)
  next
    case 2
    show ?case
      using snoc(2) num_lt_trans [of _ v "running_min vs"] num_lt_irrefl [of v]
      by (auto simp: running_min_snoc)
  next
    case 3
    show ?case
      using snoc(3) by (auto simp: running_min_snoc)
  }
qed

lemma running_max_props:
  "running_max vs \<noteq> NaN"
  "\<forall>v \<in> set vs. \<not> num_gt v (running_max vs)"
  "running_max vs = NegInf \<or> running_max vs \<in> set vs"
proof (induction vs rule: rev_induct)
  case Nil
  {
    case 1 show ?case by (simp add: running_max_def)
  next
    case 2 show ?case by simp
  next
    case 3 show ?case by (simp add: running_max_def)
  }
next
  case (snoc v vs)
  {
    case 1
    show ?case
      using snoc(1) num_lt_not_NaN [of "running_max vs" v]
      by (simp add: running_max_snoc num_gt_def)
  next
    case 2
    show ?case
      using snoc(2) num_lt_trans [of "running_max vs" v] num_lt_irrefl [of v]
      by (auto simp: running_max_snoc num_gt_def)
  next
    case 3
    show ?case
      using snoc(3) by (auto simp: running_max_snoc)
  }
qed

lemma running_min_attained:
  assumes "v \<in> set vs" and "v \<noteq> NaN"
  shows "running_min vs \<in> set vs"
proof (cases "running_min vs = PosInf")
  case True
  with running_min_props(2) [of vs] assms have "v = PosInf"
    by (auto simp: num_lt_PosInf)
  with True assms show ?thesis by simp
next
  case False
  with running_min_props(3) [of vs] show ?thesis by simp
qed

lemma running_max_attained:
  assumes "v \<in> set vs" and "v \<noteq> NaN"
  shows "running_max vs \<in> set vs"
proof (cases "running_max vs = NegInf")
  case True
  with running_max_props(2) [of vs] assms have "v = NegInf"
    by (auto simp: num_lt_NegInf num_gt_def)
  with True assms show ?thesis by simp
next
  case False
  with running_max_props(3) [of vs] show ?thesis by simp
qed

lemma running_min_all_NaN:
  assumes "\<forall>v \<in> set vs. v = NaN"
  shows "running_min vs = PosInf"
  using running_min_props(1) [of vs] running_min_props(3) [of vs] assms by auto

lemma running_max_all_NaN:
  assumes "\<forall>v \<in> set vs. v = NaN"
  shows "running_max vs = NegInf"
  using running_max_props(1) [of vs] running_max_props(3) [of vs] assms by auto

lemma num_le_iff: "a \<noteq> NaN \<Longrightarrow> b \<noteq> NaN \<Longrightarrow> num_le a b \<longleftrightarrow> \<not> num_lt b a"
  by (cases a; cases b) simp_all

text \<open>
  Claim C5, as the code has it. The box of \<open>getPolygonBounds\<close> contains every vertex:
  no vertex fails the classifier's bounds test against it. A coordinate that is NaN
  never compares and is skipped: no bound is NaN, \<open>minX\<close> is below and \<open>maxX\<close> above
  every vertex abscissa that is not NaN, each of the two is the abscissa of some vertex
  as soon as one abscissa is not NaN, and they are left at \<open>+inf\<close> and \<open>-inf\<close> when every
  abscissa is NaN; likewise for the ordinates. So the box is the tightest box around
  the coordinates that are not NaN. For the empty polygon the box is
  \<open>{+inf, -inf, +inf, -inf}\<close>, and it rejects every point that has a coordinate other
  than NaN.
\<close>

theorem getPolygonBounds_tightest:
  "(\<forall>p \<in> set polygon.
      \<not> outside_bounds (getPolygonBounds polygon) (pt_x p) (pt_y p)) \<and>
   minX (getPolygonBounds polygon) \<noteq> NaN \<and> maxX (getPolygonBounds polygon) \<noteq> NaN \<and>
   minY (getPolygonBounds polygon) \<noteq> NaN \<and> maxY (getPolygonBounds polygon) \<noteq> NaN \<and>
   (\<forall>p \<in> set polygon. pt_x p \<noteq> NaN \<longrightarrow>
      num_le (minX (getPolygonBounds polygon)) (pt_x p) \<and>
      num_le (pt_x p) (maxX (getPolygonBounds polygon))) \<and>
   (\<forall>p \<in> set polygon. pt_y p \<noteq> NaN \<longrightarrow>
      num_le (minY (getPolygonBounds polygon)) (pt_y p) \<and>
      num_le (pt_y p) (maxY (getPolygonBounds polygon))) \<and>
   ((\<exists>p \<in> set polygon. pt_x p \<noteq> NaN) \<longrightarrow>
      minX (getPolygonBounds polygon) \<in> pt_x ` set polygon \<and>
      maxX (getPolygonBounds polygon) \<in> pt_x ` set polygon) \<and>
   ((\<exists>p \<in> set polygon. pt_y p \<noteq> NaN) \<longrightarrow>
      minY (getPolygonBounds polygon) \<in> pt_y ` set polygon \<and>
      maxY (getPolygonBounds polygon) \<in> pt_y ` set polygon) \<and>
   ((\<forall>p \<in> set polygon. pt_x p = NaN) \<longrightarrow>
      minX (getPolygonBounds polygon) = PosInf \<and> maxX (getPolygonBounds polygon) = NegInf) \<and>
   ((\<forall>p \<in> set polygon. pt_y p = NaN) \<longrightarrow>
      minY (getPolygonBounds polygon) = PosInf \<and> maxY (getPolygonBounds polygon) = NegInf) \<and>
   getPolygonBounds [] = \<lparr>minX = PosInf, maxX = NegInf, minY = PosInf, maxY = NegInf\<rparr> \<and>
   (x \<noteq> NaN \<or> y \<noteq> NaN \<longrightarrow> outside_bounds (getPolygonBounds []) x y)"
proof -
  let ?xs = "map pt_x polygon" and ?ys = "map pt_y polygon"
  have b: "minX (getPolygonBounds polygon) = running_min ?xs"
    "maxX (getPolygonBounds polygon) = running_max ?xs"
    "minY (getPolygonBounds polygon) = running_min ?ys"
    "maxY (getPolygonBounds polygon) = running_max ?ys"
    by (simp_all add: getPolygonBounds_running)
  have inside: "\<forall>p \<in> set polygon.
      \<not> outside_bounds (getPolygonBounds polygon) (pt_x p) (pt_y p)"
    using running_min_props(2) [of ?xs] running_max_props(2) [of ?xs]
      running_min_props(2) [of ?ys] running_max_props(2) [of ?ys]
    by (simp add: outside_bounds_def b)
  have nan: "running_min ?xs \<noteq> NaN" "running_max ?xs \<noteq> NaN"
    "running_min ?ys \<noteq> NaN" "running_max ?ys \<noteq> NaN"
    by (rule running_min_props(1) running_max_props(1))+
  have le_x: "\<forall>p \<in> set polygon. pt_x p \<noteq> NaN \<longrightarrow>
      num_le (running_min ?xs) (pt_x p) \<and> num_le (pt_x p) (running_max ?xs)"
    using running_min_props(2) [of ?xs] running_max_props(2) [of ?xs] nan
    by (simp add: num_le_iff num_gt_def)
  have le_y: "\<forall>p \<in> set polygon. pt_y p \<noteq> NaN \<longrightarrow>
      num_le (running_min ?ys) (pt_y p) \<and> num_le (pt_y p) (running_max ?ys)"
    using running_min_props(2) [of ?ys] running_max_props(2) [of ?ys] nan
    by (simp add: num_le_iff num_gt_def)
  have att_x: "running_min ?xs \<in> pt_x ` set polygon \<and> running_max ?xs \<in> pt_x ` set polygon"
    if "\<exists>p \<in> set polygon. pt_x p \<noteq> NaN"
  proof -
    from that obtain v where v: "v \<in> set ?xs" "v \<noteq> NaN" by auto
    show ?thesis
      using running_min_attained [OF v] running_max_attained [OF v] by simp
  qed
  have att_y: "running_min ?ys \<in> pt_y ` set polygon \<and> running_max ?ys \<in> pt_y ` set polygon"
    if "\<exists>p \<in> set polygon. pt_y p \<noteq> NaN"
  proof -
    from that obtain v where v: "v \<in> set ?ys" "v \<noteq> NaN" by auto
    show ?thesis
      using running_min_attained [OF v] running_max_attained [OF v] by simp
  qed
  have skip_x: "running_min ?xs = PosInf \<and> running_max ?xs = NegInf"
    if "\<forall>p \<in> set polygon. pt_x p = NaN"
    using that by (simp add: running_min_all_NaN running_max_all_NaN)
  have skip_y: "running_min ?ys = PosInf \<and> running_max ?ys = NegInf"
    if "\<forall>p \<in> set polygon. pt_y p = NaN"
    using that by (simp add: running_min_all_NaN running_max_all_NaN)
  have empty: "getPolygonBounds [] = \<lparr>minX = PosInf, maxX = NegInf, minY = PosInf, maxY = NegInf\<rparr>"
    by (simp add: getPolygonBounds_def)
  have rej: "outside_bounds (getPolygonBounds []) x y" if "x \<noteq> NaN \<or> y \<noteq> NaN"
    using that by (cases x; cases y) (auto simp: outside_bounds_def getPolygonBounds_def num_gt_def)
  show ?thesis
    unfolding b
    using inside [unfolded b] nan le_x le_y att_x att_y skip_x skip_y empty rej
    by blast
qed

theorem getPolygonBounds_tightest_witness:
  "pt_x \<lparr>pt_x = Fin 5, pt_y = Fin 0\<rparr> \<noteq> NaN \<and>
   pt_y \<lparr>pt_x = Fin 5, pt_y = Fin 0\<rparr> \<noteq> NaN \<and>
   getPolygonBounds
     [\<lparr>pt_x = NaN, pt_y = Fin 0\<rparr>, \<lparr>pt_x = Fin 5, pt_y = Fin 0\<rparr>, \<lparr>pt_x = Fin 7, pt_y = Fin 3\<rparr>] =
     \<lparr>minX = Fin 5, maxX = Fin 7, minY = Fin 0, maxY = Fin 3\<rparr> \<and>
   num_le (Fin 5) (Fin 7) \<and> num_le (Fin 0) (Fin 3) \<and>
   list_all (\<lambda>p. pt_x p = NaN \<and> pt_y p = NaN) [\<lparr>pt_x = NaN, pt_y = NaN\<rparr>] \<and>
   getPolygonBounds [\<lparr>pt_x = NaN, pt_y = NaN\<rparr>] =
     \<lparr>minX = PosInf, maxX = NegInf, minY = PosInf, maxY = NegInf\<rparr> \<and>
   Fin 4 \<noteq> NaN \<and>
   outside_bounds (getPolygonBounds []) (Fin 4) NaN"
  using getPolygonBounds_tightest
    [of "[\<lparr>pt_x = NaN, pt_y = Fin 0\<rparr>, \<lparr>pt_x = Fin 5, pt_y = Fin 0\<rparr>, \<lparr>pt_x = Fin 7, pt_y = Fin 3\<rparr>]"
        "Fin 4" NaN]
    getPolygonBounds_tightest [of "[\<lparr>pt_x = NaN, pt_y = NaN\<rparr>]" "Fin 4" NaN]
  by (simp add: getPolygonBounds_def bounds_step_def num_gt_def)

text \<open>
  The claim as stated has the inverted box reject every point. The point whose two
  coordinates are NaN passes the bounds test, against this box as against any other:
  all four comparisons are false. For the same reason a vertex coordinate that is NaN
  never becomes a bound.
\<close>

theorem inverted_box_NaN_counterexample:
  "\<not> outside_bounds (getPolygonBounds []) NaN NaN \<and>
   minX (getPolygonBounds [\<lparr>pt_x = NaN, pt_y = Fin 0\<rparr>]) = PosInf"
  by (simp add: outside_bounds_def getPolygonBounds_def bounds_step_def num_gt_def)

section \<open>The projection loop\<close>

lemma to_index_two_thirds: "to_index (rat_of_nat n / 3 * 2) = 2 * n div 3"
proof -
  have eq: "rat_of_nat n / 3 * 2 = rat_of_nat (2 * n) / rat_of_nat 3"
    by simp
  have "\<lfloor>rat_of_nat (2 * n) / rat_of_nat 3\<rfloor> = int (2 * n div 3)"
    by (rule floor_divide_of_nat_eq)
  then show ?thesis
    by (simp only: to_index_def eq nat_int)
qed

lemma loop_count_third: "loop_count (rat_of_nat n / 3) = (n + 2) div 3"
proof -
  have "\<lceil>rat_of_nat n / 3\<rceil> = int ((n + 2) div 3)"
  proof (rule ceiling_unique)
    have "3 * ((n + 2) div 3) \<le> n + 2" by simp
    then have "rat_of_nat (3 * ((n + 2) div 3)) \<le> rat_of_nat (n + 2)"
      by (rule of_nat_mono)
    then show "rat_of_int (int ((n + 2) div 3)) - 1 < rat_of_nat n / 3"
      by simp
    have "n \<le> 3 * ((n + 2) div 3)" by presburger
    then have "rat_of_nat n \<le> rat_of_nat (3 * ((n + 2) div 3))"
      by (rule of_nat_mono)
    then show "rat_of_nat n / 3 \<le> rat_of_int (int ((n + 2) div 3))"
      by simp
  qed
  then show ?thesis by (simp add: loop_count_def)
qed

lemma put2_length: "length (put2 i u v r) = length r"
  by (simp add: put2_def)

lemma put2_nth:
  "2 * i + 1 < length r \<Longrightarrow> put2 i u v r ! (2 * i) = u"
  "2 * i + 1 < length r \<Longrightarrow> put2 i u v r ! (2 * i + 1) = v"
  "j \<noteq> i \<Longrightarrow> put2 j u v r ! (2 * i) = r ! (2 * i)"
  "j \<noteq> i \<Longrightarrow> put2 j u v r ! (2 * i + 1) = r ! (2 * i + 1)"
proof -
  show "2 * i + 1 < length r \<Longrightarrow> put2 i u v r ! (2 * i) = u"
    by (simp add: put2_def mult.commute)
  show "2 * i + 1 < length r \<Longrightarrow> put2 i u v r ! (2 * i + 1) = v"
    by (simp add: put2_def mult.commute)
  assume "j \<noteq> i"
  then have "j * 2 \<noteq> 2 * i" "j * 2 + 1 \<noteq> 2 * i" "j * 2 \<noteq> 2 * i + 1" "j * 2 + 1 \<noteq> 2 * i + 1"
    by presburger+
  then show "put2 j u v r ! (2 * i) = r ! (2 * i)" "put2 j u v r ! (2 * i + 1) = r ! (2 * i + 1)"
    unfolding put2_def by (simp_all only: nth_list_update_neq not_False_eq_True)
qed

lemma fold_put2_length:
  "length (fold (\<lambda>i. put2 i (a i) (b i)) js r) = length r"
  by (induction js arbitrary: r) (simp_all add: put2_length)

lemma fold_put2_nth:
  assumes "i < m" and "2 * i + 1 < length r"
  shows "fold (\<lambda>i. put2 i (a i) (b i)) [0..<m] r ! (2 * i) = a i \<and>
         fold (\<lambda>i. put2 i (a i) (b i)) [0..<m] r ! (2 * i + 1) = b i"
  using assms
proof (induction m)
  case 0
  then show ?case by simp
next
  case (Suc m)
  show ?case
  proof (cases "i = m")
    case True
    have "2 * m + 1 < length (fold (\<lambda>i. put2 i (a i) (b i)) [0..<m] r)"
      using Suc.prems True by (simp only: fold_put2_length)
    then show ?thesis
      using True by (simp add: put2_nth(1,2) del: One_nat_def)
  next
    case False
    with Suc.prems have "i < m" by simp
    with Suc have IH: "fold (\<lambda>i. put2 i (a i) (b i)) [0..<m] r ! (2 * i) = a i \<and>
         fold (\<lambda>i. put2 i (a i) (b i)) [0..<m] r ! (2 * i + 1) = b i"
      by simp
    from False have "m \<noteq> i" by simp
    then show ?thesis
      using IH by (simp add: put2_nth(3,4) del: One_nat_def)
  qed
qed

lemma project_as_fold:
  "projectPointsToScreen positions e width height =
     fold (\<lambda>i. put2 i
             (screen_x e width (elem positions (i * 3))
                (elem positions (i * 3 + 1)) (elem positions (i * 3 + 2)))
             (screen_y e height (elem positions (i * 3))
                (elem positions (i * 3 + 1)) (elem positions (i * 3 + 2))))
       [0..<(length positions + 2) div 3]
       (replicate (2 * length positions div 3) (Fin 0))"
proof -
  have upd: "(if c then (r[j := u])[k := v] else (r[j := u'])[k := v']) =
             (r[j := (if c then u else u')])[k := (if c then v else v')]"
    for c j k and r :: "number list" and u v u' v'
    by simp
  have rows: "row_dot e 3 x y z =
      num_add (num_add (num_add (num_mul (elem e 3) x) (num_mul (elem e 7) y))
                       (num_mul (elem e 11) z)) (elem e 15)"
    "row_dot e 0 x y z =
      num_add (num_add (num_add (num_mul (elem e 0) x) (num_mul (elem e 4) y))
                       (num_mul (elem e 8) z)) (elem e 12)"
    "row_dot e 1 x y z =
      num_add (num_add (num_add (num_mul (elem e 1) x) (num_mul (elem e 5) y))
                       (num_mul (elem e 9) z)) (elem e 13)" for x y z
    by (simp_all add: row_dot_def)
  show ?thesis
    unfolding projectPointsToScreen_def Let_def to_index_two_thirds loop_count_third
      upd screen_x_def screen_y_def rows fround.simps put2_def
    by (rule refl)
qed

lemma project_length:
  "length (projectPointsToScreen positions e width height) = 2 * length positions div 3"
  unfolding project_as_fold by (simp only: fold_put2_length length_replicate)

lemma project_nth:
  assumes "3 * i + 2 < length positions"
  shows "projectPointsToScreen positions e width height ! (2 * i) =
           screen_x e width (positions ! (3 * i)) (positions ! (3 * i + 1)) (positions ! (3 * i + 2))"
    and "projectPointsToScreen positions e width height ! (2 * i + 1) =
           screen_y e height (positions ! (3 * i)) (positions ! (3 * i + 1)) (positions ! (3 * i + 2))"
proof -
  from assms have i: "i < (length positions + 2) div 3"
    and r: "2 * i + 1 < length (replicate (2 * length positions div 3) (Fin 0))"
    by simp_all
  from assms have el: "elem positions (i * 3) = positions ! (3 * i)"
    "elem positions (i * 3 + 1) = positions ! (3 * i + 1)"
    "elem positions (i * 3 + 2) = positions ! (3 * i + 2)"
    by (simp_all add: elem_def mult.commute)
  show "projectPointsToScreen positions e width height ! (2 * i) =
           screen_x e width (positions ! (3 * i)) (positions ! (3 * i + 1)) (positions ! (3 * i + 2))"
    unfolding project_as_fold using fold_put2_nth [OF i r] by (simp only: el)
  show "projectPointsToScreen positions e width height ! (2 * i + 1) =
           screen_y e height (positions ! (3 * i)) (positions ! (3 * i + 1)) (positions ! (3 * i + 2))"
    unfolding project_as_fold using fold_put2_nth [OF i r] by (simp only: el)
qed

section \<open>Points on the plane \<open>w = 0\<close>\<close>




section \<open>The projected coordinates\<close>

text \<open>
  Claim C4, as the code has it. For a position buffer of length \<open>3N\<close> the projector
  returns a buffer of length \<open>2N\<close>, and for every point \<open>i\<close> with \<open>w\<close> not zero the
  entries \<open>2i\<close> and \<open>2i + 1\<close> are the single-precision roundings, made by the store
  into the \<^verbatim>\<open>Float32Array\<close>, of \<open>(ndcX + 1) * (width / 2)\<close> and
  \<open>(1 - ndcY) * (height / 2)\<close>, where \<open>ndcX\<close> and \<open>ndcY\<close> are the first two rows of the
  matrix applied to \<open>(x, y, z, 1)\<close> and multiplied by the reciprocal \<open>1 / w\<close>, every
  operation in binary64.
\<close>

theorem project_float32_formula:
  assumes "length positions = 3 * N" and "i < N"
  shows "length (projectPointsToScreen positions e width height) = 2 * N \<and>
         (let x = positions ! (3 * i); y = positions ! (3 * i + 1); z = positions ! (3 * i + 2);
              w = row_dot e 3 x y z;
              ndcX = num_mul (row_dot e 0 x y z) (num_div (Fin 1) w);
              ndcY = num_mul (row_dot e 1 x y z) (num_div (Fin 1) w)
          in \<not> num_seq w (Fin 0) \<longrightarrow>
             projectPointsToScreen positions e width height ! (2 * i) =
               fround (num_mul (num_add ndcX (Fin 1)) (num_div width (Fin 2))) \<and>
             projectPointsToScreen positions e width height ! (2 * i + 1) =
               fround (num_mul (num_sub (Fin 1) ndcY) (num_div height (Fin 2))))"
proof -
  from assms have idx: "3 * i + 2 < length positions" by simp
  have "length (projectPointsToScreen positions e width height) = 2 * N"
    using assms(1) by (simp add: project_length)
  then show ?thesis
    by (simp only: Let_def project_nth [OF idx] screen_x_def screen_y_def) simp
qed

theorem project_float32_formula_witness:
  "length [Fin 0, Fin 0, Fin 0] = 3 * 1 \<and> (0 :: nat) < 1 \<and>
   \<not> num_seq (row_dot [Fin 1, Fin 0, Fin 0, Fin 0, Fin 0, Fin 1, Fin 0, Fin 0,
                       Fin 0, Fin 0, Fin 1, Fin 0, Fin 0, Fin 0, Fin 0, Fin 1] 3
                (Fin 0) (Fin 0) (Fin 0)) (Fin 0) \<and>
   projectPointsToScreen [Fin 0, Fin 0, Fin 0]
     [Fin 1, Fin 0, Fin 0, Fin 0, Fin 0, Fin 1, Fin 0, Fin 0,
      Fin 0, Fin 0, Fin 1, Fin 0, Fin 0, Fin 0, Fin 0, Fin 1] (Fin 800) (Fin 600) =
     [Fin 400, Fin 300]"
proof -
  let ?pos = "[Fin 0, Fin 0, Fin 0]"
  let ?e = "[Fin 1, Fin 0, Fin 0, Fin 0, Fin 0, Fin 1, Fin 0, Fin 0,
             Fin 0, Fin 0, Fin 1, Fin 0, Fin 0, Fin 0, Fin 0, Fin 1]"
  have len: "length ?pos = 3 * 1" and idx: "(0 :: nat) < 1" by simp_all
  have rows: "row_dot ?e 3 (Fin 0) (Fin 0) (Fin 0) = Fin 1"
    "row_dot ?e 0 (Fin 0) (Fin 0) (Fin 0) = Fin 0"
    "row_dot ?e (Suc 0) (Fin 0) (Fin 0) (Fin 0) = Fin 0"
    by (simp_all add: row_dot_def elem_def float_eval)
  have "length (projectPointsToScreen ?pos ?e (Fin 800) (Fin 600)) = 2 \<and>
        projectPointsToScreen ?pos ?e (Fin 800) (Fin 600) ! 0 = Fin 400 \<and>
        projectPointsToScreen ?pos ?e (Fin 800) (Fin 600) ! 1 = Fin 300"
    using project_float32_formula [OF len idx, of ?e "Fin 800" "Fin 600", unfolded Let_def]
    by (simp add: rows num_sub_def float_eval)
  then have "projectPointsToScreen ?pos ?e (Fin 800) (Fin 600) = [Fin 400, Fin 300]"
    by (auto simp: list_eq_iff_nth_eq less_Suc_eq numeral_2_eq_2)
  then show ?thesis
    using rows by simp
qed

text \<open>
  The claim as stated has the entry be \<open>screenX\<close> itself. For the point
  \<open>(2^24, 0, 0)\<close> under the identity matrix and a viewport two pixels wide,
  \<open>screenX = (2^24 + 1) * 1\<close>, and the buffer holds \<open>2^24\<close>.
\<close>

theorem project_float32_counterexample:
  "fround (Fin 16777216) = Fin 16777216 \<and>
   length [Fin 16777216, Fin 0, Fin 0] = 3 * 1 \<and>
   \<not> num_seq (row_dot [Fin 1, Fin 0, Fin 0, Fin 0, Fin 0, Fin 1, Fin 0, Fin 0,
                       Fin 0, Fin 0, Fin 1, Fin 0, Fin 0, Fin 0, Fin 0, Fin 1] 3
                (Fin 16777216) (Fin 0) (Fin 0)) (Fin 0) \<and>
   spec_screenX [Fin 1, Fin 0, Fin 0, Fin 0, Fin 0, Fin 1, Fin 0, Fin 0,
                 Fin 0, Fin 0, Fin 1, Fin 0, Fin 0, Fin 0, Fin 0, Fin 1] (Fin 2)
     (Fin 16777216) (Fin 0) (Fin 0) = Fin 16777217 \<and>
   projectPointsToScreen [Fin 16777216, Fin 0, Fin 0]
     [Fin 1, Fin 0, Fin 0, Fin 0, Fin 0, Fin 1, Fin 0, Fin 0,
      Fin 0, Fin 0, Fin 1, Fin 0, Fin 0, Fin 0, Fin 0, Fin 1] (Fin 2) (Fin 2) ! 0 = Fin 16777216"
proof -
  let ?pos = "[Fin 16777216, Fin 0, Fin 0]"
  let ?e = "[Fin 1, Fin 0, Fin 0, Fin 0, Fin 0, Fin 1, Fin 0, Fin 0,
             Fin 0, Fin 0, Fin 1, Fin 0, Fin 0, Fin 0, Fin 0, Fin 1]"
  have rows: "row_dot ?e 3 (Fin 16777216) (Fin 0) (Fin 0) = Fin 1"
    "row_dot ?e 0 (Fin 16777216) (Fin 0) (Fin 0) = Fin 16777216"
    by (simp_all add: row_dot_def elem_def float_eval)
  have idx: "3 * 0 + 2 < length ?pos" by simp
  have "projectPointsToScreen ?pos ?e (Fin 2) (Fin 2) ! (2 * 0) = Fin 16777216"
    unfolding project_nth(1) [OF idx]
    by (simp add: screen_x_def rows float_eval round32_16777217)
  then show ?thesis
    by (simp add: spec_screenX_def rows float_eval round32_16777216)
qed

section \<open>The store-passing functions compute the same buffers\<close>

lemma f32_read_append:
  "a < length s \<Longrightarrow> f32_read (s @ t) a i = f32_read s a i"
  "f32_read (s @ b # t) (length s) i = elem (f32_data b) i"
  "f32_read (s @ b # c # t) (Suc (length s)) i = elem (f32_data c) i"
  "f32_read (s @ b # c # d # t) (Suc (Suc (length s))) i = elem (f32_data d) i"
  by (simp_all add: f32_read_def nth_append)

lemma f32_write_append:
  "f32_write (s @ Float32Array b # t) (length s) i v = s @ Float32Array (b[i := fround v]) # t"
  "f32_write (s @ b0 # Float32Array c # t) (Suc (length s)) i v =
     s @ b0 # Float32Array (c[i := fround v]) # t"
  "f32_write (s @ b0 # c0 # Float32Array d # t) (Suc (Suc (length s))) i v =
     s @ b0 # c0 # Float32Array (d[i := fround v]) # t"
  by (simp_all add: f32_write_def nth_append list_update_append)

lemma u8_write_append:
  "u8_write (s @ Uint8Array b # t) (length s) i v = s @ Uint8Array (b[i := v]) # t"
  by (simp add: u8_write_def nth_append list_update_append)


lemma copy_loop_store:
  "fold (copy_vertex_store polygon (Suc (length s0)) (Suc (Suc (length s0)))) js
     (s0 @ [r, Float32Array a, Float32Array b]) =
   s0 @ [r,
     Float32Array (fst (fold (\<lambda>i (a, b). (a[i := fround (pt_x (polygon ! i))],
                                               b[i := fround (pt_y (polygon ! i))])) js (a, b))),
     Float32Array (snd (fold (\<lambda>i (a, b). (a[i := fround (pt_x (polygon ! i))],
                                               b[i := fround (pt_y (polygon ! i))])) js (a, b)))]"
  by (induction js arbitrary: a b) (simp_all add: f32_write_append copy_vertex_store_def)

lemma inner_loop_accessors:
  assumes "3 \<le> length polygon"
    and "\<And>j. j < length polygon \<Longrightarrow> gx j = fround (pt_x (polygon ! j))"
    and "\<And>j. j < length polygon \<Longrightarrow> gy j = fround (pt_y (polygon ! j))"
  shows "snd (fold (\<lambda>j (k, inside).
                 (j, if ray_crosses x y (gx j) (gy j) (gx k) (gy k) then \<not> inside else inside))
              [0..<length polygon] (length polygon - 1, False)) =
         isPointInPolygon \<lparr>pt_x = x, pt_y = y\<rparr> (map fround_point polygon)"
proof -
  let ?n = "length polygon"
  let ?C = "\<lambda>j k. ray_crosses x y (gx j) (gy j) (gx k) (gy k)"
  let ?D = "\<lambda>j k. ray_crosses x y (map (\<lambda>p. fround (pt_x p)) polygon ! j)
                     (map (\<lambda>p. fround (pt_y p)) polygon ! j)
                     (map (\<lambda>p. fround (pt_x p)) polygon ! k)
                     (map (\<lambda>p. fround (pt_y p)) polygon ! k)"
  have "xor_walk ?C (?n - 1) [0..<?n] = xor_walk ?D (?n - 1) [0..<?n]"
  proof (rule xor_walk_cong)
    fix j k
    assume "j \<in> set [0..<?n]" and "k \<in> insert (?n - 1) (set [0..<?n])"
    with assms(1) have "j < ?n" and "k < ?n" by auto
    then show "?C j k = ?D j k"
      by (simp add: assms(2,3))
  qed
  then show ?thesis
    using batch_inner_loop [OF assms(1), of x y]
    by (simp add: Let_def toggle_fold_xor_walk)
qed


lemma classify_point_store_append:
  assumes a: "a < length s" "s ! a = Float32Array sp" and n: "3 \<le> length polygon"
  shows "classify_point_store a (length s) (Suc (length s)) (Suc (Suc (length s)))
           (getPolygonBounds polygon) (length polygon) i
           (s @ [Uint8Array r, Float32Array (map (\<lambda>p. fround (pt_x p)) polygon),
                 Float32Array (map (\<lambda>p. fround (pt_y p)) polygon)]) =
         s @ [Uint8Array (r[i := mask_value polygon (elem sp (i * 2)) (elem sp (i * 2 + 1))]),
              Float32Array (map (\<lambda>p. fround (pt_x p)) polygon),
              Float32Array (map (\<lambda>p. fround (pt_y p)) polygon)]"
proof -
  let ?X = "map (\<lambda>p. fround (pt_x p)) polygon" and ?Y = "map (\<lambda>p. fround (pt_y p)) polygon"
  let ?st = "s @ [Uint8Array r, Float32Array ?X, Float32Array ?Y]"
  have rd_sp: "f32_read ?st a j = elem sp j" for j
    using a by (simp add: f32_read_def nth_append)
  have rd_X: "f32_read ?st (Suc (length s)) j = elem ?X j" for j
    by (simp add: f32_read_append)
  have rd_Y: "f32_read ?st (Suc (Suc (length s))) j = elem ?Y j" for j
    by (simp add: f32_read_append)
  have inner: "snd (fold (\<lambda>j (k, inside).
                 (j, if ray_crosses x y (elem ?X j) (elem ?Y j) (elem ?X k) (elem ?Y k)
                     then \<not> inside else inside))
              [0..<length polygon] (length polygon - 1, False)) =
         isPointInPolygon \<lparr>pt_x = x, pt_y = y\<rparr> (map fround_point polygon)" for x y
    by (rule inner_loop_accessors [OF n]) (simp_all add: elem_def)
  have upd: "(if c then u8_write ?st (length s) i 0
              else u8_write ?st (length s) i (if d then 1 else 0)) =
             s @ [Uint8Array (r[i := (if \<not> c \<and> d then 1 else 0)]), Float32Array ?X, Float32Array ?Y]"
    for c d
    by (simp add: u8_write_append)
  show ?thesis
    unfolding classify_point_store_def Let_def rd_sp rd_X rd_Y inner upd mask_value_def
    by (rule refl)
qed

lemma classify_loop_store:
  assumes a: "a < length s" "s ! a = Float32Array sp" and n: "3 \<le> length polygon"
  shows "fold (classify_point_store a (length s) (Suc (length s)) (Suc (Suc (length s)))
                 (getPolygonBounds polygon) (length polygon)) js
           (s @ [Uint8Array r, Float32Array (map (\<lambda>p. fround (pt_x p)) polygon),
                 Float32Array (map (\<lambda>p. fround (pt_y p)) polygon)]) =
         s @ [Uint8Array (fold (\<lambda>i r. r[i := mask_value polygon (elem sp (i * 2))
                                                (elem sp (i * 2 + 1))]) js r),
              Float32Array (map (\<lambda>p. fround (pt_x p)) polygon),
              Float32Array (map (\<lambda>p. fround (pt_y p)) polygon)]"
  by (induction js arbitrary: r) (simp_all only: fold_simps classify_point_store_append [OF assms])

lemma batchPointsInPolygon_store_refines:
  assumes a: "a < length s" "s ! a = Float32Array sp"
  shows "batchPointsInPolygon_store s a polygon =
           (length s,
            s @ Uint8Array (batchPointsInPolygon sp polygon) #
              (if length polygon < 3 then []
               else [Float32Array (map (\<lambda>p. fround (pt_x p)) polygon),
                     Float32Array (map (\<lambda>p. fround (pt_y p)) polygon)]))"
proof (cases "length polygon < 3")
  case True
  with a show ?thesis
    by (simp add: batchPointsInPolygon_store_def batchPointsInPolygon_def new_Uint8Array_def
        f32_length_def)
next
  case False
  then have n: "3 \<le> length polygon" by simp
  have copy: "fold (\<lambda>i (a, b). (a[i := fround (pt_x (polygon ! i))],
                                  b[i := fround (pt_y (polygon ! i))]))
               [0..<length polygon]
               (replicate (length polygon) (Fin 0), replicate (length polygon) (Fin 0)) =
             (map (\<lambda>p. fround (pt_x p)) polygon, map (\<lambda>p. fround (pt_y p)) polygon)"
    using copy_loop [of "length polygon" polygon "replicate (length polygon) (Fin 0)"
        "replicate (length polygon) (Fin 0)" "\<lambda>p. fround (pt_x p)" "\<lambda>p. fround (pt_y p)"]
    by simp
  have len: "f32_length s a = length sp"
    using a by (simp add: f32_length_def)
  show ?thesis
    using False
    by (simp add: batchPointsInPolygon_store_def new_Uint8Array_def new_Float32Array_def len
        Let_def copy_loop_store copy classify_loop_store [OF a n] batch_as_fold [OF n]
        to_index_half loop_count_half)
qed


lemma project_point_store_append:
  assumes a: "a < length s" "s ! a = Float32Array pos"
  shows "project_point_store a (length s) e (num_div width (Fin 2)) (num_div height (Fin 2)) i
           (s @ [Float32Array r]) =
         s @ [Float32Array (put2 i
                (screen_x e width (elem pos (i * 3)) (elem pos (i * 3 + 1)) (elem pos (i * 3 + 2)))
                (screen_y e height (elem pos (i * 3)) (elem pos (i * 3 + 1)) (elem pos (i * 3 + 2)))
                r)]"
proof -
  have rd: "f32_read (s @ [Float32Array r]) a j = elem pos j" for j
    using a by (simp add: f32_read_def nth_append)
  have wr: "f32_write (f32_write (s @ [Float32Array r]) (length s) j u) (length s) k v =
            s @ [Float32Array ((r[j := fround u])[k := fround v])]" for j k u v
    by (simp add: f32_write_append)
  have upd: "(if c then s @ [Float32Array ((r[j := u])[k := v])]
              else s @ [Float32Array ((r[j := u'])[k := v'])]) =
             s @ [Float32Array ((r[j := (if c then u else u')])[k := (if c then v else v')])]"
    for c j k u v u' v'
    by simp
  have rows: "row_dot e 3 x y z =
      num_add (num_add (num_add (num_mul (elem e 3) x) (num_mul (elem e 7) y))
                       (num_mul (elem e 11) z)) (elem e 15)"
    "row_dot e 0 x y z =
      num_add (num_add (num_add (num_mul (elem e 0) x) (num_mul (elem e 4) y))
                       (num_mul (elem e 8) z)) (elem e 12)"
    "row_dot e 1 x y z =
      num_add (num_add (num_add (num_mul (elem e 1) x) (num_mul (elem e 5) y))
                       (num_mul (elem e 9) z)) (elem e 13)" for x y z
    by (simp_all add: row_dot_def)
  show ?thesis
    unfolding project_point_store_def Let_def rd wr upd screen_x_def screen_y_def rows
      fround.simps put2_def
    by (rule refl)
qed

lemma project_loop_store:
  assumes a: "a < length s" "s ! a = Float32Array pos"
  shows "fold (project_point_store a (length s) e (num_div width (Fin 2)) (num_div height (Fin 2)))
           js (s @ [Float32Array r]) =
         s @ [Float32Array (fold (\<lambda>i. put2 i
                (screen_x e width (elem pos (i * 3)) (elem pos (i * 3 + 1)) (elem pos (i * 3 + 2)))
                (screen_y e height (elem pos (i * 3)) (elem pos (i * 3 + 1)) (elem pos (i * 3 + 2))))
                js r)]"
  by (induction js arbitrary: r) (simp_all only: fold_simps project_point_store_append [OF assms])

lemma projectPointsToScreen_store_refines:
  assumes a: "a < length s" "s ! a = Float32Array pos"
  shows "projectPointsToScreen_store s a e width height =
           (length s, s @ [Float32Array (projectPointsToScreen pos e width height)])"
proof -
  have len: "f32_length s a = length pos"
    using a by (simp add: f32_length_def)
  show ?thesis
    unfolding projectPointsToScreen_store_def new_Float32Array_def len Let_def
      to_index_two_thirds loop_count_third prod.case project_loop_store [OF a] project_as_fold
    by (rule refl)
qed


section \<open>Frame and determinism\<close>

text \<open>
  Claim C9. Run in any store that holds the caller's position buffer, respectively the
  screen-position buffer, each function leaves every buffer of that store as it was,
  the input buffer among them; what it returns is the address of a buffer allocated by
  the call, outside the old store: the screen buffer of \<open>2N\<close> single-precision numbers,
  respectively the mask of \<open>N\<close> bytes, holding what the function computes.
\<close>

theorem input_buffers_not_mutated:
  assumes "positions < length s" and "s ! positions = Float32Array pos"
    and "screenPositions < length s" and "s ! screenPositions = Float32Array sp"
  shows "(case projectPointsToScreen_store s positions e width height of
            (out, s') \<Rightarrow>
              take (length s) s' = s \<and> s' ! positions = Float32Array pos \<and>
              length s \<le> out \<and>
              s' ! out = Float32Array (projectPointsToScreen pos e width height) \<and>
              length (f32_data (s' ! out)) = 2 * length pos div 3) \<and>
         (case batchPointsInPolygon_store s screenPositions polygon of
            (results, s') \<Rightarrow>
              take (length s) s' = s \<and> s' ! screenPositions = Float32Array sp \<and>
              length s \<le> results \<and>
              s' ! results = Uint8Array (batchPointsInPolygon sp polygon) \<and>
              length (u8_data (s' ! results)) = length sp div 2)"
  using assms
  by (simp add: projectPointsToScreen_store_refines [OF assms(1,2)]
      batchPointsInPolygon_store_refines [OF assms(3,4)] nth_append project_length batch_length)

theorem input_buffers_not_mutated_witness:
  "(0 :: nat) < length [Float32Array [Fin 0, Fin 0, Fin 0], Float32Array [Fin 5, Fin 5]] \<and>
   [Float32Array [Fin 0, Fin 0, Fin 0], Float32Array [Fin 5, Fin 5]] ! 0 =
     Float32Array [Fin 0, Fin 0, Fin 0] \<and>
   (1 :: nat) < length [Float32Array [Fin 0, Fin 0, Fin 0], Float32Array [Fin 5, Fin 5]] \<and>
   [Float32Array [Fin 0, Fin 0, Fin 0], Float32Array [Fin 5, Fin 5]] ! 1 =
     Float32Array [Fin 5, Fin 5] \<and>
   take 2 (snd (projectPointsToScreen_store
                  [Float32Array [Fin 0, Fin 0, Fin 0], Float32Array [Fin 5, Fin 5]] 0
                  [Fin 1, Fin 0, Fin 0, Fin 0, Fin 0, Fin 1, Fin 0, Fin 0,
                   Fin 0, Fin 0, Fin 1, Fin 0, Fin 0, Fin 0, Fin 0, Fin 1] (Fin 800) (Fin 600))) =
     [Float32Array [Fin 0, Fin 0, Fin 0], Float32Array [Fin 5, Fin 5]] \<and>
   fst (projectPointsToScreen_store
          [Float32Array [Fin 0, Fin 0, Fin 0], Float32Array [Fin 5, Fin 5]] 0
          [Fin 1, Fin 0, Fin 0, Fin 0, Fin 0, Fin 1, Fin 0, Fin 0,
           Fin 0, Fin 0, Fin 1, Fin 0, Fin 0, Fin 0, Fin 0, Fin 1] (Fin 800) (Fin 600)) = 2 \<and>
   take 2 (snd (batchPointsInPolygon_store
                  [Float32Array [Fin 0, Fin 0, Fin 0], Float32Array [Fin 5, Fin 5]] 1
                  [\<lparr>pt_x = Fin 0, pt_y = Fin 0\<rparr>, \<lparr>pt_x = Fin 10, pt_y = Fin 0\<rparr>,
                   \<lparr>pt_x = Fin 10, pt_y = Fin 10\<rparr>, \<lparr>pt_x = Fin 0, pt_y = Fin 10\<rparr>])) =
     [Float32Array [Fin 0, Fin 0, Fin 0], Float32Array [Fin 5, Fin 5]] \<and>
   fst (batchPointsInPolygon_store
          [Float32Array [Fin 0, Fin 0, Fin 0], Float32Array [Fin 5, Fin 5]] 1
          [\<lparr>pt_x = Fin 0, pt_y = Fin 0\<rparr>, \<lparr>pt_x = Fin 10, pt_y = Fin 0\<rparr>,
           \<lparr>pt_x = Fin 10, pt_y = Fin 10\<rparr>, \<lparr>pt_x = Fin 0, pt_y = Fin 10\<rparr>]) = 2"
proof -
  let ?s = "[Float32Array [Fin 0, Fin 0, Fin 0], Float32Array [Fin 5, Fin 5]]"
  have a0: "(0 :: nat) < length ?s" and b0: "?s ! 0 = Float32Array [Fin 0, Fin 0, Fin 0]"
    and a1: "(1 :: nat) < length ?s" and b1: "?s ! 1 = Float32Array [Fin 5, Fin 5]"
    by simp_all
  have out: "fst (projectPointsToScreen_store ?s 0 e w h) = 2" for e w h
    unfolding projectPointsToScreen_store_refines [OF a0 b0] by simp
  have res: "fst (batchPointsInPolygon_store ?s 1 polygon) = 2" for polygon
    unfolding batchPointsInPolygon_store_refines [OF a1 b1] by simp
  show ?thesis
    using input_buffers_not_mutated [OF a0 b0 a1 b1,
        where e = "[Fin 1, Fin 0, Fin 0, Fin 0, Fin 0, Fin 1, Fin 0, Fin 0,
                    Fin 0, Fin 0, Fin 1, Fin 0, Fin 0, Fin 0, Fin 0, Fin 1]"
          and width = "Fin 800" and height = "Fin 600"
          and polygon = "[\<lparr>pt_x = Fin 0, pt_y = Fin 0\<rparr>, \<lparr>pt_x = Fin 10, pt_y = Fin 0\<rparr>,
                          \<lparr>pt_x = Fin 10, pt_y = Fin 10\<rparr>, \<lparr>pt_x = Fin 0, pt_y = Fin 10\<rparr>]"]
      a0 b0 a1 b1 out res
    by (simp add: split_beta numeral_2_eq_2)
qed

text \<open>
  Claim C6. The mask depends on the contents of the screen-position buffer and on the
  polygon only: two calls in two stores, whatever else they hold and wherever the
  buffers lie, return the same bytes when the buffer contents and the polygons agree.
\<close>

theorem batch_mask_deterministic:
  assumes "a1 < length s1" and "s1 ! a1 = Float32Array sp"
    and "a2 < length s2" and "s2 ! a2 = Float32Array sp"
  shows "(case batchPointsInPolygon_store s1 a1 polygon of
            (m1, t1) \<Rightarrow>
              (case batchPointsInPolygon_store s2 a2 polygon of
                 (m2, t2) \<Rightarrow>
                   t1 ! m1 = t2 ! m2 \<and>
                   t1 ! m1 = Uint8Array (batchPointsInPolygon sp polygon)))"
  by (simp add: batchPointsInPolygon_store_refines [OF assms(1,2)]
      batchPointsInPolygon_store_refines [OF assms(3,4)])

theorem batch_mask_deterministic_witness:
  "(0 :: nat) < length [Float32Array [Fin 5, Fin 5]] \<and>
   [Float32Array [Fin 5, Fin 5]] ! 0 = Float32Array [Fin 5, Fin 5] \<and>
   (1 :: nat) < length [Uint8Array [1], Float32Array [Fin 5, Fin 5]] \<and>
   [Uint8Array [1], Float32Array [Fin 5, Fin 5]] ! 1 = Float32Array [Fin 5, Fin 5] \<and>
   snd (batchPointsInPolygon_store [Float32Array [Fin 5, Fin 5]] 0
          [\<lparr>pt_x = Fin 0, pt_y = Fin 0\<rparr>, \<lparr>pt_x = Fin 10, pt_y = Fin 0\<rparr>,
           \<lparr>pt_x = Fin 10, pt_y = Fin 10\<rparr>, \<lparr>pt_x = Fin 0, pt_y = Fin 10\<rparr>]) !
     fst (batchPointsInPolygon_store [Float32Array [Fin 5, Fin 5]] 0
          [\<lparr>pt_x = Fin 0, pt_y = Fin 0\<rparr>, \<lparr>pt_x = Fin 10, pt_y = Fin 0\<rparr>,
           \<lparr>pt_x = Fin 10, pt_y = Fin 10\<rparr>, \<lparr>pt_x = Fin 0, pt_y = Fin 10\<rparr>]) =
   snd (batchPointsInPolygon_store [Uint8Array [1], Float32Array [Fin 5, Fin 5]] 1
          [\<lparr>pt_x = Fin 0, pt_y = Fin 0\<rparr>, \<lparr>pt_x = Fin 10, pt_y = Fin 0\<rparr>,
           \<lparr>pt_x = Fin 10, pt_y = Fin 10\<rparr>, \<lparr>pt_x = Fin 0, pt_y = Fin 10\<rparr>]) !
     fst (batchPointsInPolygon_store [Uint8Array [1], Float32Array [Fin 5, Fin 5]] 1
          [\<lparr>pt_x = Fin 0, pt_y = Fin 0\<rparr>, \<lparr>pt_x = Fin 10, pt_y = Fin 0\<rparr>,
           \<lparr>pt_x = Fin 10, pt_y = Fin 10\<rparr>, \<lparr>pt_x = Fin 0, pt_y = Fin 10\<rparr>])"
proof -
  have a1: "(0 :: nat) < length [Float32Array [Fin 5, Fin 5]]"
    and b1: "[Float32Array [Fin 5, Fin 5]] ! 0 = Float32Array [Fin 5, Fin 5]"
    and a2: "(1 :: nat) < length [Uint8Array [1], Float32Array [Fin 5, Fin 5]]"
    and b2: "[Uint8Array [1], Float32Array [Fin 5, Fin 5]] ! 1 = Float32Array [Fin 5, Fin 5]"
    by simp_all
  show ?thesis
    using batch_mask_deterministic [OF a1 b1 a2 b2,
        where polygon = "[\<lparr>pt_x = Fin 0, pt_y = Fin 0\<rparr>, \<lparr>pt_x = Fin 10, pt_y = Fin 0\<rparr>,
                          \<lparr>pt_x = Fin 10, pt_y = Fin 10\<rparr>, \<lparr>pt_x = Fin 0, pt_y = Fin 10\<rparr>]"]
      a1 b1 a2 b2
    by (simp add: split_beta)
qed

section \<open>Lasso capture\<close>

lemma handleMouseMove_step:
  assumes "isDrawing s" and "pathRef s \<noteq> []"
  shows "handleMouseMove rect e s =
           Inr (if num_lt (squared_distance (last (pathRef s)) (pointer_position rect e)) (Fin 16)
                then s else s\<lparr>pathRef := pathRef s @ [pointer_position rect e]\<rparr>)"
  using assms
  by (simp add: handleMouseMove_def squared_distance_def pointer_position_def Let_def)

lemma dispatch_moves_recorded:
  assumes "isDrawing s" and "pathRef s \<noteq> []"
  shows "dispatch_moves ms s =
           Inr (s\<lparr>pathRef := pathRef s @ recorded (last (pathRef s)) (move_positions ms)\<rparr>)"
  using assms
proof (induction ms arbitrary: s)
  case Nil
  then show ?case by (simp add: move_positions_def)
next
  case (Cons m ms)
  obtain rect e where m: "m = (rect, e)" by (cases m)
  let ?p = "pointer_position rect e"
  show ?case
  proof (cases "num_lt (squared_distance (last (pathRef s)) ?p) (Fin 16)")
    case True
    with Cons.prems have "handleMouseMove rect e s = Inr s"
      by (simp add: handleMouseMove_step)
    with True Cons.IH [OF Cons.prems] show ?thesis
      by (simp add: m move_positions_def)
  next
    case False
    let ?s = "s\<lparr>pathRef := pathRef s @ [?p]\<rparr>"
    from False Cons.prems have "handleMouseMove rect e s = Inr ?s"
      by (simp add: handleMouseMove_step)
    moreover have "isDrawing ?s" "pathRef ?s \<noteq> []"
      using Cons.prems by simp_all
    note Cons.IH [OF this]
    ultimately show ?thesis
      using False by (simp add: m move_positions_def)
  qed
qed

lemma recorded_length: "length (recorded v ps) \<le> length ps"
  by (induction ps arbitrary: v) (auto intro: le_SucI)

lemma recorded_all_near:
  "(\<forall>p \<in> set ps. num_lt (squared_distance v p) (Fin 16)) \<Longrightarrow> recorded v ps = []"
  by (induction ps) simp_all

lemma recorded_append:
  "recorded v (ps @ qs) = recorded v ps @ recorded (last (v # recorded v ps)) qs"
  by (induction ps arbitrary: v) simp_all

lemma num_gt_not_lt: "num_gt a b \<Longrightarrow> \<not> num_lt a b"
  using num_lt_trans [of a b a] num_lt_irrefl [of a] by (auto simp: num_gt_def)

lemma round_binary_cases:
  "round_binary p emin emax q \<noteq> NaN"
  "0 \<le> q \<Longrightarrow> round_binary p emin emax q \<noteq> NegInf"
  by (simp_all add: round_binary_def Let_def)

lemma round64_cases:
  "round64 q \<noteq> NaN"
  "0 \<le> q \<Longrightarrow> round64 q \<noteq> NegInf"
  by (simp_all add: round64_def round_binary_cases)

lemma squared_distance_not_NaN:
  assumes "is_fin (pt_x p)" "is_fin (pt_y p)" "is_fin (pt_x q)" "is_fin (pt_y q)"
  shows "squared_distance p q \<noteq> NaN"
proof -
  have sq: "num_mul d d \<noteq> NaN \<and> num_mul d d \<noteq> NegInf" if "d \<noteq> NaN" for d
    using that by (cases d) (simp_all add: signed_inf_def round64_cases)
  have sub: "num_sub (Fin a) (Fin b) \<noteq> NaN" for a b
    by (simp add: num_sub_def round64_cases)
  have add: "num_add u v \<noteq> NaN" if "u \<noteq> NaN" "u \<noteq> NegInf" "v \<noteq> NaN" "v \<noteq> NegInf" for u v
    using that by (cases u; cases v) (simp_all add: round64_cases)
  obtain a b c d where "pt_x p = Fin a" "pt_y p = Fin b" "pt_x q = Fin c" "pt_y q = Fin d"
    using assms by (cases "pt_x p"; cases "pt_y p"; cases "pt_x q"; cases "pt_y q") auto
  then show ?thesis
    using sq [OF sub [of c a]] sq [OF sub [of d b]]
    by (simp add: squared_distance_def Let_def add)
qed


text \<open>
  Claim C7, as the code has it. While a gesture is being captured, \<open>handleMouseMove\<close>
  keeps the path when the squared distance \<open>dx * dx + dy * dy\<close> from the last recorded
  vertex to the new pointer position is below 16 and appends the position otherwise; a
  position whose squared distance exceeds 16 is therefore never discarded, and for
  finite positions a position is appended exactly when its squared distance reaches 16.
  The path of a gesture is the pointer-down position followed by the move positions
  that are kept, each compared with the vertex recorded last, so it never has more
  vertices than positions were fed, the pointer-down position and the moves. It has
  strictly fewer as soon as the first move lies within the threshold of the pointer-down
  position, whatever the later moves are. When every move lies within the threshold of
  the recorded vertex, which then stays the pointer-down position, the path is that
  single vertex; this is fewer than the moves alone only from two moves on. A move
  that arrives farther than the threshold from the vertex recorded last becomes the
  next vertex of the path.
\<close>

theorem lasso_downsampling:
  "(isDrawing s \<and> pathRef s \<noteq> [] \<longrightarrow>
      handleMouseMove rect e s =
        Inr (if num_lt (squared_distance (last (pathRef s)) (pointer_position rect e)) (Fin 16)
             then s else s\<lparr>pathRef := pathRef s @ [pointer_position rect e]\<rparr>) \<and>
      (num_gt (squared_distance (last (pathRef s)) (pointer_position rect e)) (Fin 16) \<longrightarrow>
         handleMouseMove rect e s = Inr (s\<lparr>pathRef := pathRef s @ [pointer_position rect e]\<rparr>)) \<and>
      (is_fin (pt_x (last (pathRef s))) \<and> is_fin (pt_y (last (pathRef s))) \<and>
       is_fin (pt_x (pointer_position rect e)) \<and> is_fin (pt_y (pointer_position rect e)) \<longrightarrow>
         (handleMouseMove rect e s = Inr (s\<lparr>pathRef := pathRef s @ [pointer_position rect e]\<rparr>)) =
         num_le (Fin 16) (squared_distance (last (pathRef s)) (pointer_position rect e)))) \<and>
   (let p0 = pointer_position rect0 e0;
        path = p0 # recorded p0 (move_positions ms);
        path1 = p0 # recorded p0 (move_positions ms1)
    in
      dispatch_moves ms (handleMouseDown rect0 e0 s0) =
        Inr ((handleMouseDown rect0 e0 s0)\<lparr>pathRef := path\<rparr>) \<and>
      isDrawing (handleMouseDown rect0 e0 s0) \<and>
      length path \<le> 1 + length ms \<and>
      (ms \<noteq> [] \<and> num_lt (squared_distance p0 (hd (move_positions ms))) (Fin 16) \<longrightarrow>
         length path < 1 + length ms) \<and>
      ((\<forall>p \<in> set (move_positions ms). num_lt (squared_distance p0 p) (Fin 16)) \<longrightarrow>
         path = [p0] \<and> (2 \<le> length ms \<longrightarrow> length path < length ms)) \<and>
      (ms = ms1 @ (rect1, e1) # ms2 \<and>
       num_gt (squared_distance (last path1) (pointer_position rect1 e1)) (Fin 16) \<longrightarrow>
         dispatch_moves ms1 (handleMouseDown rect0 e0 s0) =
           Inr ((handleMouseDown rect0 e0 s0)\<lparr>pathRef := path1\<rparr>) \<and>
         take (length path1 + 1) path = path1 @ [pointer_position rect1 e1]))"
proof (intro conjI impI)
  assume s: "isDrawing s \<and> pathRef s \<noteq> []"
  let ?d2 = "squared_distance (last (pathRef s)) (pointer_position rect e)"
  let ?app = "s\<lparr>pathRef := pathRef s @ [pointer_position rect e]\<rparr>"
  show step: "handleMouseMove rect e s = Inr (if num_lt ?d2 (Fin 16) then s else ?app)"
    using s by (simp add: handleMouseMove_step)
  {
    assume "num_gt ?d2 (Fin 16)"
    then have "\<not> num_lt ?d2 (Fin 16)"
      by (rule num_gt_not_lt)
    then show "handleMouseMove rect e s = Inr ?app"
      by (simp add: step)
  }
  {
    assume "is_fin (pt_x (last (pathRef s))) \<and> is_fin (pt_y (last (pathRef s))) \<and>
       is_fin (pt_x (pointer_position rect e)) \<and> is_fin (pt_y (pointer_position rect e))"
    then have "?d2 \<noteq> NaN"
      by (intro squared_distance_not_NaN) simp_all
    then have le: "num_le (Fin 16) ?d2 = (\<not> num_lt ?d2 (Fin 16))"
      by (cases ?d2) simp_all
    have "pathRef ?app \<noteq> pathRef s" by simp
    then have "?app \<noteq> s" by metis
    then show "(handleMouseMove rect e s = Inr ?app) = num_le (Fin 16) ?d2"
      by (auto simp: step le)
  }
next
  let ?p0 = "pointer_position rect0 e0"
  let ?s1 = "handleMouseDown rect0 e0 s0"
  let ?path = "?p0 # recorded ?p0 (move_positions ms)"
  let ?path1 = "?p0 # recorded ?p0 (move_positions ms1)"
  have s1: "isDrawing ?s1" "pathRef ?s1 = [?p0]"
    by (simp_all add: handleMouseDown_def pointer_position_def Let_def)
  have run: "dispatch_moves ms' ?s1 = Inr (?s1\<lparr>pathRef := ?p0 # recorded ?p0 (move_positions ms')\<rparr>)"
    for ms'
    using dispatch_moves_recorded [of ?s1 ms'] by (simp add: s1)
  have len: "length ?path \<le> 1 + length ms"
    using recorded_length [of ?p0 "move_positions ms"] by (simp add: move_positions_def)
  have dense: "length ?path < 1 + length ms"
    if "ms \<noteq> [] \<and> num_lt (squared_distance ?p0 (hd (move_positions ms))) (Fin 16)"
  proof -
    from that obtain m ms' where ms: "ms = m # ms'" by (cases ms) auto
    with that have "recorded ?p0 (move_positions ms) = recorded ?p0 (move_positions ms')"
      by (simp add: move_positions_def)
    then show ?thesis
      using recorded_length [of ?p0 "move_positions ms'"] by (simp add: ms move_positions_def)
  qed
  have near: "?path = [?p0] \<and> (2 \<le> length ms \<longrightarrow> length ?path < length ms)"
    if "\<forall>p \<in> set (move_positions ms). num_lt (squared_distance ?p0 p) (Fin 16)"
    using recorded_all_near [OF that] by simp
  have far: "take (length ?path1 + 1) ?path = ?path1 @ [pointer_position rect1 e1]"
    if "ms = ms1 @ (rect1, e1) # ms2 \<and>
        num_gt (squared_distance (last ?path1) (pointer_position rect1 e1)) (Fin 16)"
  proof -
    from that have "\<not> num_lt (squared_distance (last ?path1) (pointer_position rect1 e1)) (Fin 16)"
      by (intro num_gt_not_lt) simp
    moreover have "move_positions ms = move_positions ms1 @ pointer_position rect1 e1 # move_positions ms2"
      using that by (simp add: move_positions_def)
    ultimately show ?thesis
      by (simp add: recorded_append)
  qed
  show "let p0 = ?p0; path = p0 # recorded p0 (move_positions ms);
            path1 = p0 # recorded p0 (move_positions ms1)
    in
      dispatch_moves ms (handleMouseDown rect0 e0 s0) =
        Inr ((handleMouseDown rect0 e0 s0)\<lparr>pathRef := path\<rparr>) \<and>
      isDrawing (handleMouseDown rect0 e0 s0) \<and>
      length path \<le> 1 + length ms \<and>
      (ms \<noteq> [] \<and> num_lt (squared_distance p0 (hd (move_positions ms))) (Fin 16) \<longrightarrow>
         length path < 1 + length ms) \<and>
      ((\<forall>p \<in> set (move_positions ms). num_lt (squared_distance p0 p) (Fin 16)) \<longrightarrow>
         path = [p0] \<and> (2 \<le> length ms \<longrightarrow> length path < length ms)) \<and>
      (ms = ms1 @ (rect1, e1) # ms2 \<and>
       num_gt (squared_distance (last path1) (pointer_position rect1 e1)) (Fin 16) \<longrightarrow>
         dispatch_moves ms1 (handleMouseDown rect0 e0 s0) =
           Inr ((handleMouseDown rect0 e0 s0)\<lparr>pathRef := path1\<rparr>) \<and>
         take (length path1 + 1) path = path1 @ [pointer_position rect1 e1])"
    unfolding Let_def
    using run [of ms] run [of ms1] s1(1) len dense near far by blast
qed

theorem lasso_downsampling_witness:
  "isDrawing \<lparr>isDrawing = True, pathRef = [\<lparr>pt_x = Fin 100, pt_y = Fin 100\<rparr>]\<rparr> \<and>
   pathRef \<lparr>isDrawing = True, pathRef = [\<lparr>pt_x = Fin 100, pt_y = Fin 100\<rparr>]\<rparr> \<noteq> [] \<and>
   num_gt (squared_distance \<lparr>pt_x = Fin 100, pt_y = Fin 100\<rparr>
             (pointer_position \<lparr>rect_left = Fin 8, rect_top = Fin 50\<rparr>
                \<lparr>clientX = Fin 118, clientY = Fin 150\<rparr>)) (Fin 16) \<and>
   handleMouseMove \<lparr>rect_left = Fin 8, rect_top = Fin 50\<rparr> \<lparr>clientX = Fin 118, clientY = Fin 150\<rparr>
     \<lparr>isDrawing = True, pathRef = [\<lparr>pt_x = Fin 100, pt_y = Fin 100\<rparr>]\<rparr> =
     Inr \<lparr>isDrawing = True,
          pathRef = [\<lparr>pt_x = Fin 100, pt_y = Fin 100\<rparr>, \<lparr>pt_x = Fin 110, pt_y = Fin 100\<rparr>]\<rparr> \<and>
   is_fin (pt_x (pointer_position \<lparr>rect_left = Fin 8, rect_top = Fin 50\<rparr>
                   \<lparr>clientX = Fin 118, clientY = Fin 150\<rparr>)) \<and>
   is_fin (pt_y (pointer_position \<lparr>rect_left = Fin 8, rect_top = Fin 50\<rparr>
                   \<lparr>clientX = Fin 118, clientY = Fin 150\<rparr>)) \<and>
   num_le (Fin 16)
     (squared_distance \<lparr>pt_x = Fin 100, pt_y = Fin 100\<rparr>
        (pointer_position \<lparr>rect_left = Fin 8, rect_top = Fin 50\<rparr>
           \<lparr>clientX = Fin 118, clientY = Fin 150\<rparr>)) \<and>
   list_all (\<lambda>p. num_lt (squared_distance
                           (pointer_position \<lparr>rect_left = Fin 8, rect_top = Fin 50\<rparr>
                              \<lparr>clientX = Fin 108, clientY = Fin 150\<rparr>) p) (Fin 16))
     (move_positions
        [(\<lparr>rect_left = Fin 8, rect_top = Fin 50\<rparr>, \<lparr>clientX = Fin 109, clientY = Fin 150\<rparr>),
         (\<lparr>rect_left = Fin 8, rect_top = Fin 50\<rparr>, \<lparr>clientX = Fin 110, clientY = Fin 151\<rparr>)]) \<and>
   dispatch_moves
     [(\<lparr>rect_left = Fin 8, rect_top = Fin 50\<rparr>, \<lparr>clientX = Fin 109, clientY = Fin 150\<rparr>),
      (\<lparr>rect_left = Fin 8, rect_top = Fin 50\<rparr>, \<lparr>clientX = Fin 110, clientY = Fin 151\<rparr>)]
     (handleMouseDown \<lparr>rect_left = Fin 8, rect_top = Fin 50\<rparr>
        \<lparr>clientX = Fin 108, clientY = Fin 150\<rparr> \<lparr>isDrawing = False, pathRef = []\<rparr>) =
     Inr \<lparr>isDrawing = True, pathRef = [\<lparr>pt_x = Fin 100, pt_y = Fin 100\<rparr>]\<rparr> \<and>
   num_gt (squared_distance
             (last (pointer_position \<lparr>rect_left = Fin 8, rect_top = Fin 50\<rparr>
                      \<lparr>clientX = Fin 108, clientY = Fin 150\<rparr> #
                    recorded (pointer_position \<lparr>rect_left = Fin 8, rect_top = Fin 50\<rparr>
                                \<lparr>clientX = Fin 108, clientY = Fin 150\<rparr>)
                      (move_positions [(\<lparr>rect_left = Fin 8, rect_top = Fin 50\<rparr>,
                                   \<lparr>clientX = Fin 109, clientY = Fin 150\<rparr>)])))
             (pointer_position \<lparr>rect_left = Fin 8, rect_top = Fin 50\<rparr>
                \<lparr>clientX = Fin 118, clientY = Fin 150\<rparr>)) (Fin 16) \<and>
   dispatch_moves
     ([(\<lparr>rect_left = Fin 8, rect_top = Fin 50\<rparr>, \<lparr>clientX = Fin 109, clientY = Fin 150\<rparr>)] @
      (\<lparr>rect_left = Fin 8, rect_top = Fin 50\<rparr>, \<lparr>clientX = Fin 118, clientY = Fin 150\<rparr>) #
      [(\<lparr>rect_left = Fin 8, rect_top = Fin 50\<rparr>, \<lparr>clientX = Fin 119, clientY = Fin 151\<rparr>)])
     (handleMouseDown \<lparr>rect_left = Fin 8, rect_top = Fin 50\<rparr>
        \<lparr>clientX = Fin 108, clientY = Fin 150\<rparr> \<lparr>isDrawing = False, pathRef = []\<rparr>) =
     Inr \<lparr>isDrawing = True,
          pathRef = [\<lparr>pt_x = Fin 100, pt_y = Fin 100\<rparr>, \<lparr>pt_x = Fin 110, pt_y = Fin 100\<rparr>]\<rparr>"
proof -
  let ?rect = "\<lparr>rect_left = Fin 8, rect_top = Fin 50\<rparr>"
  let ?s = "\<lparr>isDrawing = True, pathRef = [\<lparr>pt_x = Fin 100, pt_y = Fin 100\<rparr>]\<rparr>"
  let ?e0 = "\<lparr>clientX = Fin 108, clientY = Fin 150\<rparr>"
  let ?near1 = "(?rect, \<lparr>clientX = Fin 109, clientY = Fin 150\<rparr>)"
  let ?near2 = "(?rect, \<lparr>clientX = Fin 110, clientY = Fin 151\<rparr>)"
  let ?far = "\<lparr>clientX = Fin 118, clientY = Fin 150\<rparr>"
  let ?near3 = "(?rect, \<lparr>clientX = Fin 119, clientY = Fin 151\<rparr>)"
  have pos: "pointer_position ?rect ?far = \<lparr>pt_x = Fin 110, pt_y = Fin 100\<rparr>"
    "pointer_position ?rect ?e0 = \<lparr>pt_x = Fin 100, pt_y = Fin 100\<rparr>"
    "pointer_position ?rect \<lparr>clientX = Fin 109, clientY = Fin 150\<rparr> =
               \<lparr>pt_x = Fin 101, pt_y = Fin 100\<rparr>"
    "pointer_position ?rect \<lparr>clientX = Fin 110, clientY = Fin 151\<rparr> =
               \<lparr>pt_x = Fin 102, pt_y = Fin 101\<rparr>"
    "pointer_position ?rect \<lparr>clientX = Fin 119, clientY = Fin 151\<rparr> =
               \<lparr>pt_x = Fin 111, pt_y = Fin 101\<rparr>"
    by (simp_all add: pointer_position_def num_sub_def float_eval)
  have d2: "squared_distance \<lparr>pt_x = Fin 100, pt_y = Fin 100\<rparr> \<lparr>pt_x = Fin 110, pt_y = Fin 100\<rparr> = Fin 100"
    "squared_distance \<lparr>pt_x = Fin 100, pt_y = Fin 100\<rparr> \<lparr>pt_x = Fin 101, pt_y = Fin 100\<rparr> = Fin 1"
    "squared_distance \<lparr>pt_x = Fin 100, pt_y = Fin 100\<rparr> \<lparr>pt_x = Fin 102, pt_y = Fin 101\<rparr> = Fin 5"
    "squared_distance \<lparr>pt_x = Fin 110, pt_y = Fin 100\<rparr> \<lparr>pt_x = Fin 111, pt_y = Fin 101\<rparr> = Fin 2"
    by (simp_all add: squared_distance_def num_sub_def float_eval)
  have down: "handleMouseDown ?rect ?e0 \<lparr>isDrawing = False, pathRef = []\<rparr> = ?s"
    by (simp add: handleMouseDown_def num_sub_def float_eval)
  show ?thesis
    using lasso_downsampling [where s = ?s and rect = ?rect and e = ?far
        and ms = "[?near1, ?near2]" and ?rect0.0 = ?rect and ?e0.0 = ?e0
        and ?s0.0 = "\<lparr>isDrawing = False, pathRef = []\<rparr>"
        and ?ms1.0 = "[]" and ?rect1.0 = ?rect and ?e1.0 = ?far and ?ms2.0 = "[]"]
      lasso_downsampling [where s = ?s and rect = ?rect and e = ?far
        and ms = "[?near1] @ (?rect, ?far) # [?near3]" and ?rect0.0 = ?rect and ?e0.0 = ?e0
        and ?s0.0 = "\<lparr>isDrawing = False, pathRef = []\<rparr>"
        and ?ms1.0 = "[?near1]" and ?rect1.0 = ?rect and ?e1.0 = ?far and ?ms2.0 = "[?near3]"]
    by (auto simp: pos d2 down num_gt_def move_positions_def Let_def)
qed

text \<open>
  The claim as stated counts the vertices against the pointer-move positions. A gesture
  with a single move, one pixel from the pointer-down position, is a sequence of
  pointer-move positions each within the threshold of the recorded vertex; the move is
  dropped, and the path has the one vertex of the pointer-down position for the one
  pointer-move position: not fewer.
\<close>

theorem lasso_single_move_counterexample:
  "num_lt (squared_distance
             (pointer_position \<lparr>rect_left = Fin 8, rect_top = Fin 50\<rparr>
                \<lparr>clientX = Fin 108, clientY = Fin 150\<rparr>)
             (pointer_position \<lparr>rect_left = Fin 8, rect_top = Fin 50\<rparr>
                \<lparr>clientX = Fin 109, clientY = Fin 150\<rparr>)) (Fin 16) \<and>
   dispatch_moves
     [(\<lparr>rect_left = Fin 8, rect_top = Fin 50\<rparr>, \<lparr>clientX = Fin 109, clientY = Fin 150\<rparr>)]
     (handleMouseDown \<lparr>rect_left = Fin 8, rect_top = Fin 50\<rparr>
        \<lparr>clientX = Fin 108, clientY = Fin 150\<rparr> \<lparr>isDrawing = False, pathRef = []\<rparr>) =
     Inr \<lparr>isDrawing = True, pathRef = [\<lparr>pt_x = Fin 100, pt_y = Fin 100\<rparr>]\<rparr> \<and>
   \<not> (case dispatch_moves
             [(\<lparr>rect_left = Fin 8, rect_top = Fin 50\<rparr>, \<lparr>clientX = Fin 109, clientY = Fin 150\<rparr>)]
             (handleMouseDown \<lparr>rect_left = Fin 8, rect_top = Fin 50\<rparr>
                \<lparr>clientX = Fin 108, clientY = Fin 150\<rparr> \<lparr>isDrawing = False, pathRef = []\<rparr>) of
         Inl err \<Rightarrow> False
       | Inr s' \<Rightarrow>
           length (pathRef s') <
           length [(\<lparr>rect_left = Fin 8, rect_top = Fin 50\<rparr>,
                    \<lparr>clientX = Fin 109, clientY = Fin 150\<rparr>)])"
  by (simp add: handleMouseDown_def handleMouseMove_def pointer_position_def
      squared_distance_def num_sub_def float_eval Let_def)

section \<open>Colouring the selection\<close>

lemma put3_length: "length (put3 i u v w r) = length r"
  by (simp add: put3_def)

lemma put3_nth_same:
  assumes "3 * i + 2 < length r"
  shows "put3 i u v w r ! (3 * i) = u" and "put3 i u v w r ! (3 * i + 1) = v"
    and "put3 i u v w r ! (3 * i + 2) = w"
  using assms by (simp_all add: put3_def mult.commute)

lemma put3_nth_other:
  assumes "j \<noteq> i"
  shows "put3 j u v w r ! (3 * i) = r ! (3 * i)" and "put3 j u v w r ! (3 * i + 1) = r ! (3 * i + 1)"
    and "put3 j u v w r ! (3 * i + 2) = r ! (3 * i + 2)"
proof -
  from assms have ne:
    "j * 3 \<noteq> 3 * i" "j * 3 + 1 \<noteq> 3 * i" "j * 3 + 2 \<noteq> 3 * i"
    "j * 3 \<noteq> 3 * i + 1" "j * 3 + 1 \<noteq> 3 * i + 1" "j * 3 + 2 \<noteq> 3 * i + 1"
    "j * 3 \<noteq> 3 * i + 2" "j * 3 + 1 \<noteq> 3 * i + 2" "j * 3 + 2 \<noteq> 3 * i + 2"
    by presburger+
  show "put3 j u v w r ! (3 * i) = r ! (3 * i)" and "put3 j u v w r ! (3 * i + 1) = r ! (3 * i + 1)"
    and "put3 j u v w r ! (3 * i + 2) = r ! (3 * i + 2)"
    unfolding put3_def by (simp_all only: nth_list_update_neq ne not_False_eq_True)
qed

lemma paint_loop_length:
  "length (fold (\<lambda>i cs. if c i then put3 i u v w cs else cs) js cs) = length cs"
  by (induction js arbitrary: cs) (simp_all add: put3_length)

lemma paint_loop_nth:
  assumes "3 * i + 2 < length cs"
  shows "fold (\<lambda>i cs. if c i then put3 i u v w cs else cs) [0..<m] cs ! (3 * i) =
           (if i < m \<and> c i then u else cs ! (3 * i)) \<and>
         fold (\<lambda>i cs. if c i then put3 i u v w cs else cs) [0..<m] cs ! (3 * i + 1) =
           (if i < m \<and> c i then v else cs ! (3 * i + 1)) \<and>
         fold (\<lambda>i cs. if c i then put3 i u v w cs else cs) [0..<m] cs ! (3 * i + 2) =
           (if i < m \<and> c i then w else cs ! (3 * i + 2))"
proof (induction m)
  case 0
  show ?case by simp
next
  case (Suc m)
  let ?F = "fold (\<lambda>i cs. if c i then put3 i u v w cs else cs) [0..<m] cs"
  have len: "3 * i + 2 < length ?F"
    using assms by (simp only: paint_loop_length)
  show ?case
  proof (cases "i = m")
    case True
    then show ?thesis
      using Suc put3_nth_same [of m ?F u v w] len
      by (simp del: One_nat_def)
  next
    case False
    then have "m \<noteq> i" by simp
    then show ?thesis
      using Suc False put3_nth_other [of m i u v w ?F]
      by (simp add: less_Suc_eq del: One_nat_def)
  qed
qed

lemma setPointColors_loaded:
  assumes "colorAttr pc = Some attr" and "length (originalColors pc) = length (attr_array attr)"
  shows "setPointColors (Some pc) indices color =
           Inr (Some (pc\<lparr>colorAttr :=
                  Some (attr\<lparr>attr_array := recolored (originalColors pc) indices color,
                             needsUpdate := True\<rparr>)\<rparr>))"
  using assms by (simp add: setPointColors_def recolored_def Let_def)

lemma recolored_nth:
  assumes "i < length indices" and "3 * i + 2 < length original"
  shows "recolored original indices color ! (3 * i) =
           (if indices ! i \<noteq> 0 then fround (color_r color) else original ! (3 * i))"
    and "recolored original indices color ! (3 * i + 1) =
           (if indices ! i \<noteq> 0 then fround (color_g color) else original ! (3 * i + 1))"
    and "recolored original indices color ! (3 * i + 2) =
           (if indices ! i \<noteq> 0 then fround (color_b color) else original ! (3 * i + 2))"
  using paint_loop_nth [OF assms(2), of "\<lambda>i. indices ! i \<noteq> 0" "fround (color_r color)"
      "fround (color_g color)" "fround (color_b color)" "length indices"] assms(1)
  by (simp_all add: recolored_def del: One_nat_def)


lemma round32_tenth:
  "round32 (3602879701896397 / 36028797018963968) = Fin (13421773 / 134217728)"
  unfolding round32_def
  using round_binary_nearest [of "- 4" "3602879701896397 / 36028797018963968" "- 126" 13421773 24 127]
  by (simp add: pow2_def)

lemma round64_tenth:
  "round64 (3602879701896397 / 36028797018963968) = Fin (3602879701896397 / 36028797018963968)"
  using round64_exact [of 3602879701896397 "- 55"] by (simp add: pow2_def)

lemma round32_half: "round32 (1 / 2) = Fin (1 / 2)"
  using round32_exact [of 1 "- 1"] by (simp add: pow2_def)

text \<open>
  Claim C8, as the code has it. For a loaded point cloud whose saved original colours
  are as long as its colour buffer, \<open>setPointColors\<close> returns without an exception and
  leaves a colour buffer in which every point \<open>i\<close> with \<open>mask[i] = 1\<close> has the given
  colour as the \<^verbatim>\<open>Float32Array\<close> stores it, each component rounded to single precision,
  and every point with \<open>mask[i] = 0\<close> has its original colour. The buffer does not
  depend on what the colour buffer held before the call: a new selection replaces the
  previous one.
\<close>

theorem setPointColors_replaces_selection:
  assumes "colorAttr pc = Some attr" and "length (originalColors pc) = length (attr_array attr)"
    and "i < length indices" and "3 * i + 2 < length (attr_array attr)"
  shows "\<exists>colors.
           setPointColors (Some pc) indices color =
             Inr (Some (pc\<lparr>colorAttr := Some (attr\<lparr>attr_array := colors, needsUpdate := True\<rparr>)\<rparr>)) \<and>
           length colors = length (attr_array attr) \<and>
           (indices ! i = 1 \<longrightarrow>
              colors ! (3 * i) = fround (color_r color) \<and>
              colors ! (3 * i + 1) = fround (color_g color) \<and>
              colors ! (3 * i + 2) = fround (color_b color)) \<and>
           (indices ! i = 0 \<longrightarrow>
              colors ! (3 * i) = originalColors pc ! (3 * i) \<and>
              colors ! (3 * i + 1) = originalColors pc ! (3 * i + 1) \<and>
              colors ! (3 * i + 2) = originalColors pc ! (3 * i + 2)) \<and>
           (\<forall>previous. length previous = length (attr_array attr) \<longrightarrow>
              setPointColors (Some (pc\<lparr>colorAttr := Some (attr\<lparr>attr_array := previous\<rparr>)\<rparr>))
                indices color =
              Inr (Some (pc\<lparr>colorAttr := Some (attr\<lparr>attr_array := colors, needsUpdate := True\<rparr>)\<rparr>)))"
proof -
  let ?colors = "recolored (originalColors pc) indices color"
  have idx: "3 * i + 2 < length (originalColors pc)"
    using assms(2,4) by simp
  have "setPointColors (Some (pc\<lparr>colorAttr := Some (attr\<lparr>attr_array := previous\<rparr>)\<rparr>)) indices color =
          Inr (Some (pc\<lparr>colorAttr := Some (attr\<lparr>attr_array := ?colors, needsUpdate := True\<rparr>)\<rparr>))"
    if "length previous = length (attr_array attr)" for previous
    using setPointColors_loaded [of "pc\<lparr>colorAttr := Some (attr\<lparr>attr_array := previous\<rparr>)\<rparr>"
        "attr\<lparr>attr_array := previous\<rparr>" indices color] that assms(2)
    by simp
  moreover have "length ?colors = length (attr_array attr)"
    using assms(2) by (simp add: recolored_def paint_loop_length)
  ultimately show ?thesis
    using setPointColors_loaded [OF assms(1,2), of indices color] recolored_nth [OF assms(3) idx, of color]
    by (intro exI [of _ ?colors]) (simp del: One_nat_def)
qed

theorem setPointColors_replaces_selection_witness:
  "colorAttr \<lparr>colorAttr = Some \<lparr>attr_array = [Fin 0, Fin 1, Fin 0, Fin 1, Fin 1, Fin 1],
                                needsUpdate = False\<rparr>,
              pointCount = 2,
              originalColors = [Fin 1, Fin 1, Fin 1, Fin 1, Fin 1, Fin 1]\<rparr> =
     Some \<lparr>attr_array = [Fin 0, Fin 1, Fin 0, Fin 1, Fin 1, Fin 1], needsUpdate = False\<rparr> \<and>
   length [Fin 1, Fin 1, Fin 1, Fin 1, Fin 1, Fin 1 :: number] =
     length [Fin 0, Fin 1, Fin 0, Fin 1, Fin 1, Fin 1 :: number] \<and>
   (1 :: nat) < length [0, 1 :: 8 word] \<and>
   3 * 1 + 2 < length [Fin 0, Fin 1, Fin 0, Fin 1, Fin 1, Fin 1 :: number] \<and>
   setPointColors
     (Some \<lparr>colorAttr = Some \<lparr>attr_array = [Fin 0, Fin 1, Fin 0, Fin 1, Fin 1, Fin 1],
                               needsUpdate = False\<rparr>,
             pointCount = 2,
             originalColors = [Fin 1, Fin 1, Fin 1, Fin 1, Fin 1, Fin 1]\<rparr>)
     [0, 1] \<lparr>color_r = Fin (1 / 2), color_g = Fin 1, color_b = Fin (1 / 2)\<rparr> =
   Inr (Some \<lparr>colorAttr = Some \<lparr>attr_array = [Fin 1, Fin 1, Fin 1, Fin (1 / 2), Fin 1, Fin (1 / 2)],
                                   needsUpdate = True\<rparr>,
                 pointCount = 2,
                 originalColors = [Fin 1, Fin 1, Fin 1, Fin 1, Fin 1, Fin 1]\<rparr>)"
proof -
  let ?attr = "\<lparr>attr_array = [Fin 0, Fin 1, Fin 0, Fin 1, Fin 1, Fin 1], needsUpdate = False\<rparr>"
  let ?pc = "\<lparr>colorAttr = Some ?attr, pointCount = 2,
              originalColors = [Fin 1, Fin 1, Fin 1, Fin 1, Fin 1, Fin 1]\<rparr>"
  let ?color = "\<lparr>color_r = Fin (1 / 2), color_g = Fin 1, color_b = Fin (1 / 2)\<rparr>"
  have h: "colorAttr ?pc = Some ?attr" "length (originalColors ?pc) = length (attr_array ?attr)"
    by simp_all
  have i1: "(1 :: nat) < length [0, 1 :: 8 word]" "3 * 1 + 2 < length (attr_array ?attr)"
    by simp_all
  have "setPointColors (Some ?pc) [0, 1] ?color =
      Inr (Some (?pc\<lparr>colorAttr := Some (?attr\<lparr>attr_array :=
        [Fin 1, Fin 1, Fin 1, Fin (1 / 2), Fin 1, Fin (1 / 2)], needsUpdate := True\<rparr>)\<rparr>))"
    by (simp add: setPointColors_def put3_def round32_half float_eval)
  then show ?thesis
    using setPointColors_replaces_selection [OF h i1, of ?color] by simp
qed

text \<open>
  The claim as stated has the selected point take the given colour itself. For the red
  component 0.1, as a binary64 value, the buffer holds the nearest single-precision
  value, which is another number.
\<close>

theorem setPointColors_float32_counterexample:
  "round64 (3602879701896397 / 36028797018963968) = Fin (3602879701896397 / 36028797018963968) \<and>
   setPointColors
     (Some \<lparr>colorAttr = Some \<lparr>attr_array = [Fin 1, Fin 1, Fin 1], needsUpdate = False\<rparr>,
             pointCount = 1, originalColors = [Fin 1, Fin 1, Fin 1]\<rparr>)
     [1] \<lparr>color_r = Fin (3602879701896397 / 36028797018963968), color_g = Fin 1, color_b = Fin 1\<rparr> =
   Inr (Some \<lparr>colorAttr = Some \<lparr>attr_array = [Fin (13421773 / 134217728), Fin 1, Fin 1],
                                   needsUpdate = True\<rparr>,
                 pointCount = 1, originalColors = [Fin 1, Fin 1, Fin 1]\<rparr>) \<and>
   Fin (13421773 / 134217728) \<noteq> Fin (3602879701896397 / 36028797018963968)"
  by (simp add: round64_tenth setPointColors_def put3_def round32_tenth float_eval)

end
